theory Spec2Isabelle
  imports Main "HOL-Library.Sublist"
begin

section \<open>Python values\<close>

text \<open>
  The values that travel through the engine are the ones \<^verbatim>\<open>json.loads\<close> produces and
  \<^verbatim>\<open>json.dumps\<close> accepts: \<^verbatim>\<open>None\<close>, booleans, unbounded integers, strings, lists
  and dictionaries with string keys. A Python \<^verbatim>\<open>dict\<close> keeps insertion order, so it is
  an association list. Floating point numbers are left out of the model; a character
  of a \<open>string\<close> stands for the code point of the same number (0 to 255).
\<close>

datatype json =
    JNull
  | JBool bool
  | JInt int
  | JStr string
  | JList "json list"
  | JDict "(string \<times> json) list"

type_synonym dict = "(string \<times> json) list"

text \<open>Truth value testing, as \<^verbatim>\<open>if x:\<close> does it.\<close>

fun truthy :: "json \<Rightarrow> bool" where
  "truthy JNull = False"
| "truthy (JBool b) = b"
| "truthy (JInt i) = (i \<noteq> 0)"
| "truthy (JStr s) = (s \<noteq> [])"
| "truthy (JList xs) = (xs \<noteq> [])"
| "truthy (JDict kvs) = (kvs \<noteq> [])"

text \<open>\<^verbatim>\<open>d.get(k, default)\<close> and \<^verbatim>\<open>d[k] = v\<close> on a dictionary.\<close>

definition dict_get :: "dict \<Rightarrow> string \<Rightarrow> json \<Rightarrow> json" where
  "dict_get d k dflt = (case map_of d k of None \<Rightarrow> dflt | Some v \<Rightarrow> v)"

fun dict_set :: "dict \<Rightarrow> string \<Rightarrow> json \<Rightarrow> dict" where
  "dict_set [] k v = [(k, v)]"
| "dict_set ((k', v') # d) k v =
     (if k' = k then (k', v) # d else (k', v') # dict_set d k v)"

text \<open>
  An f-string \<^verbatim>\<open>f"prefix{value}"\<close> is kept as its two parts; \<open>Lit\<close> is a plain literal.
\<close>

datatype fstring = Lit string | Fmt string json

datatype exn =
    ConnectionError string
  | AttributeError
  | AuthError fstring
  | TimeoutError
  | CancelledError
  | JSONDecodeError
  | OSError
  | OtherException string

datatype 'a res = Ret 'a | Raise exn

section \<open>constants.py\<close>

definition DEFAULT_CHATS_COUNT :: int where
  "DEFAULT_CHATS_COUNT = 40"

definition DEFAULT_VERSION :: int where
  "DEFAULT_VERSION = 11"

text \<open>The attributes of class \<^verbatim>\<open>Messages\<close> that the engine prints, by name.\<close>

datatype msg =
    WEBSOCKET_CLOSED
  | FOUND_TOKEN
  | TOKEN_SENT
  | PHONE_SENT
  | NAVIGATION_EVENTS_SENT
  | CODE_REQUESTED
  | SENDING_CODE
  | CODE_SENT
  | CODE_VERIFIED
  | TOKEN_SAVED
  | SENDING_TOKEN
  | TOKEN_INVALID
  | REQUESTING_REAUTH
  | REAUTH_SUCCESSFUL
  | AUTH_TIMEOUT
  | PHONE_NOT_FOUND
  | TOO_MANY_ATTEMPTS
  | DEVICE_INIT
  | ERROR_RECEIVING
  | ERROR_SAVING_SESSION
  | AUTH_ERROR
  | AUTH_CODE_ERROR
  | DEBUG_SENDING
  | DEBUG_RECEIVED
  | DEBUG_JSON_PARSE_FAILED
  | DEVICE_INIT_SENT
  | PHONE_SENDING

section \<open>json.dumps\<close>

text \<open>
  The wire format is what \<^verbatim>\<open>json.dumps(message)\<close> writes with its default arguments:
  items separated by \<^verbatim>\<open>", "\<close>, keys from values by \<^verbatim>\<open>": "\<close>, and
  \<^verbatim>\<open>ensure_ascii=True\<close>, so every character outside the printable ASCII range is
  written as an escape.
\<close>

definition digit_char :: "nat \<Rightarrow> char" where
  "digit_char n = char_of (48 + n)"

function nat_digits :: "nat \<Rightarrow> string" where
  "nat_digits n =
     (if n < 10 then [digit_char n] else nat_digits (n div 10) @ [digit_char (n mod 10)])"
  by pat_completeness auto
termination
  by (relation "measure id") auto

declare nat_digits.simps [simp del]

definition int_str :: "int \<Rightarrow> string" where
  "int_str i = (if i < 0 then CHR ''-'' # nat_digits (nat (- i)) else nat_digits (nat i))"

definition hex_char :: "nat \<Rightarrow> char" where
  "hex_char n = (if n < 10 then char_of (48 + n) else char_of (87 + n))"

definition ord :: "char \<Rightarrow> nat" where
  "ord c = of_char c"

definition escape_char :: "char \<Rightarrow> string" where
  "escape_char c =
     (if c = CHR 0x22 then [CHR 0x5C, CHR 0x22]
      else if c = CHR 0x5C then [CHR 0x5C, CHR 0x5C]
      else if c = CHR 0x0A then [CHR 0x5C, CHR ''n'']
      else if c = CHR 0x0D then [CHR 0x5C, CHR ''r'']
      else if c = CHR 0x09 then [CHR 0x5C, CHR ''t'']
      else if c = CHR 0x08 then [CHR 0x5C, CHR ''b'']
      else if c = CHR 0x0C then [CHR 0x5C, CHR ''f'']
      else if 32 \<le> ord c \<and> ord c \<le> 126 then [c]
      else [CHR 0x5C, CHR ''u'', CHR ''0'', CHR ''0'',
            hex_char (ord c div 16), hex_char (ord c mod 16)])"

definition quote :: "string \<Rightarrow> string" where
  "quote s = CHR 0x22 # concat (map escape_char s) @ [CHR 0x22]"

fun json_dumps :: "json \<Rightarrow> string"
  and dumps_items :: "json list \<Rightarrow> string"
  and dumps_pairs :: "(string \<times> json) list \<Rightarrow> string" where
  "json_dumps JNull = ''null''"
| "json_dumps (JBool b) = (if b then ''true'' else ''false'')"
| "json_dumps (JInt i) = int_str i"
| "json_dumps (JStr s) = quote s"
| "json_dumps (JList xs) = CHR ''['' # dumps_items xs @ '']''"
| "json_dumps (JDict kvs) = CHR ''{'' # dumps_pairs kvs @ ''}''"
| "dumps_items [] = []"
| "dumps_items [x] = json_dumps x"
| "dumps_items (x # y # ys) = json_dumps x @ '', '' @ dumps_items (y # ys)"
| "dumps_pairs [] = []"
| "dumps_pairs [(k, v)] = quote k @ '': '' @ json_dumps v"
| "dumps_pairs ((k, v) # p # ps) = quote k @ '': '' @ json_dumps v @ '', '' @ dumps_pairs (p # ps)"

section \<open>json.loads\<close>

text \<open>
  The decoder of the Python standard library on a text, as its scanner reads it:
  white space is blank, tab, line feed and carriage return; a string ends at the next
  quote, may not hold a control character, and lets a backslash escape one of
  \<^verbatim>\<open>" \ / b f n r t\<close> or \<^verbatim>\<open>u\<close> with four hexadecimal digits; a number is an optional
  minus and \<^verbatim>\<open>0\<close> or a digit string without a leading zero; a dictionary is built
  from its pairs in order, a later pair of the same key replacing the value.

  The result says what the model knows: \<open>Parsed v\<close> when Python returns the value
  \<open>v\<close>, \<open>Malformed\<close> when Python raises \<^verbatim>\<open>JSONDecodeError\<close>, and \<open>Unmodelled\<close> when
  Python goes on with something the values of this theory cannot hold: a number with
  a fraction or an exponent, \<^verbatim>\<open>NaN\<close>, \<^verbatim>\<open>Infinity\<close> (Python reads a float), an escape
  \<^verbatim>\<open>\uXXXX\<close> above 255, or a nesting deeper than the fuel. About an \<open>Unmodelled\<close>
  text the model says nothing. \<open>json_loads\<close> gives one more fuel than the text is long.
\<close>

datatype 'a parsed = Parsed 'a | Malformed | Unmodelled

definition is_ws :: "char \<Rightarrow> bool" where
  "is_ws c = (c = CHR 0x20 \<or> c = CHR 0x09 \<or> c = CHR 0x0A \<or> c = CHR 0x0D)"

definition skip_ws :: "string \<Rightarrow> string" where
  "skip_ws s = dropWhile is_ws s"

definition is_digit :: "char \<Rightarrow> bool" where
  "is_digit c = (48 \<le> ord c \<and> ord c \<le> 57)"

definition digits_val :: "string \<Rightarrow> nat" where
  "digits_val ds = foldl (\<lambda>n c. 10 * n + (ord c - 48)) 0 ds"

definition hex_val :: "char \<Rightarrow> nat option" where
  "hex_val c =
     (if 48 \<le> ord c \<and> ord c \<le> 57 then Some (ord c - 48)
      else if 97 \<le> ord c \<and> ord c \<le> 102 then Some (ord c - 87)
      else if 65 \<le> ord c \<and> ord c \<le> 70 then Some (ord c - 55)
      else None)"

definition parse_hex4 :: "string \<Rightarrow> nat option" where
  "parse_hex4 s =
     (case s of
        a # b # c # d # rest \<Rightarrow>
          (case (hex_val a, hex_val b, hex_val c, hex_val d) of
             (Some x, Some y, Some z, Some u) \<Rightarrow> Some (((x * 16 + y) * 16 + z) * 16 + u)
           | _ \<Rightarrow> None)
      | _ \<Rightarrow> None)"

definition unescape :: "char \<Rightarrow> char option" where
  "unescape c =
     (if c = CHR 0x22 then Some (CHR 0x22)
      else if c = CHR 0x5C then Some (CHR 0x5C)
      else if c = CHR ''/'' then Some (CHR ''/'')
      else if c = CHR ''b'' then Some (CHR 0x08)
      else if c = CHR ''f'' then Some (CHR 0x0C)
      else if c = CHR ''n'' then Some (CHR 0x0A)
      else if c = CHR ''r'' then Some (CHR 0x0D)
      else if c = CHR ''t'' then Some (CHR 0x09)
      else None)"

definition cons_result :: "char \<Rightarrow> (string \<times> string) parsed \<Rightarrow> (string \<times> string) parsed" where
  "cons_result c r =
     (case r of
        Malformed \<Rightarrow> Malformed
      | Unmodelled \<Rightarrow> Unmodelled
      | Parsed (str, rest) \<Rightarrow> Parsed (c # str, rest))"

text \<open>The string after its opening quote: the content and what follows the closing quote.\<close>

function scan_string :: "string \<Rightarrow> (string \<times> string) parsed" where
  "scan_string [] = Malformed"
| "scan_string (c # cs) =
     (if c = CHR 0x22 then Parsed ([], cs)
      else if c = CHR 0x5C then
        (case cs of
           [] \<Rightarrow> Malformed
         | e # es \<Rightarrow>
             if e = CHR ''u'' then
               (case parse_hex4 es of
                  None \<Rightarrow> Malformed
                | Some n \<Rightarrow>
                    if n < 256 then cons_result (char_of n) (scan_string (drop 4 es))
                    else Unmodelled)
             else
               (case unescape e of
                  None \<Rightarrow> Malformed
                | Some ch \<Rightarrow> cons_result ch (scan_string es)))
      else if ord c < 32 then Malformed
      else cons_result c (scan_string cs))"
  by pat_completeness auto
termination
  by (relation "measure length") auto

text \<open>What follows the integer part of a number and makes it a float.\<close>

definition float_tail :: "string \<Rightarrow> bool" where
  "float_tail s =
     (case s of
        [] \<Rightarrow> False
      | c # r \<Rightarrow>
          if c = CHR ''.'' then (case r of [] \<Rightarrow> False | d # r' \<Rightarrow> is_digit d)
          else if c = CHR ''e'' \<or> c = CHR ''E'' then
            (case r of
               [] \<Rightarrow> False
             | d # r' \<Rightarrow>
                 if d = CHR ''+'' \<or> d = CHR ''-'' then
                   (case r' of [] \<Rightarrow> False | d' # r'' \<Rightarrow> is_digit d')
                 else is_digit d)
          else False)"

definition finish_number :: "bool \<Rightarrow> string \<Rightarrow> string \<Rightarrow> (json \<times> string) parsed" where
  "finish_number neg ds rest =
     (if float_tail rest then Unmodelled
      else Parsed (JInt (if neg then - int (digits_val ds) else int (digits_val ds)), rest))"

definition parse_digits :: "bool \<Rightarrow> string \<Rightarrow> (json \<times> string) parsed" where
  "parse_digits neg s =
     (case s of
        [] \<Rightarrow> Malformed
      | c # cs \<Rightarrow>
          if c = CHR ''0'' then finish_number neg [c] cs
          else if is_digit c then
            finish_number neg (c # takeWhile is_digit cs) (dropWhile is_digit cs)
          else if neg \<and> take 8 s = ''Infinity'' then Unmodelled
          else Malformed)"

definition parse_number :: "string \<Rightarrow> (json \<times> string) parsed" where
  "parse_number s =
     (case s of
        [] \<Rightarrow> Malformed
      | c # cs \<Rightarrow> if c = CHR ''-'' then parse_digits True cs else parse_digits False s)"

text \<open>
  \<^verbatim>\<open>scan_once\<close>, with the array and the object: \<open>parse_items\<close> reads the items of an
  array after the bracket, \<open>parse_pairs\<close> the pairs of an object from the quote of a
  key on.
\<close>

fun parse_value :: "nat \<Rightarrow> string \<Rightarrow> (json \<times> string) parsed"
  and parse_items :: "nat \<Rightarrow> json list \<Rightarrow> string \<Rightarrow> (json list \<times> string) parsed"
  and parse_pairs :: "nat \<Rightarrow> dict \<Rightarrow> string \<Rightarrow> (dict \<times> string) parsed" where
  "parse_value 0 s = Unmodelled"
| "parse_value (Suc n) s =
     (case s of
        [] \<Rightarrow> Malformed
      | c # cs \<Rightarrow>
          if c = CHR 0x22 then
            (case scan_string cs of
               Malformed \<Rightarrow> Malformed
             | Unmodelled \<Rightarrow> Unmodelled
             | Parsed (str, rest) \<Rightarrow> Parsed (JStr str, rest))
          else if c = CHR ''{'' then
            (case skip_ws cs of
               [] \<Rightarrow> Malformed
             | d # rest \<Rightarrow>
                 if d = CHR ''}'' then Parsed (JDict [], rest)
                 else
                   (case parse_pairs n [] (d # rest) of
                      Malformed \<Rightarrow> Malformed
                    | Unmodelled \<Rightarrow> Unmodelled
                    | Parsed (kvs, rest') \<Rightarrow> Parsed (JDict kvs, rest')))
          else if c = CHR ''['' then
            (case skip_ws cs of
               [] \<Rightarrow> Malformed
             | d # rest \<Rightarrow>
                 if d = CHR '']'' then Parsed (JList [], rest)
                 else
                   (case parse_items n [] (d # rest) of
                      Malformed \<Rightarrow> Malformed
                    | Unmodelled \<Rightarrow> Unmodelled
                    | Parsed (xs, rest') \<Rightarrow> Parsed (JList xs, rest')))
          else if take 4 s = ''null'' then Parsed (JNull, drop 4 s)
          else if take 4 s = ''true'' then Parsed (JBool True, drop 4 s)
          else if take 5 s = ''false'' then Parsed (JBool False, drop 5 s)
          else if c = CHR ''-'' \<or> is_digit c then parse_number s
          else if take 3 s = ''NaN'' \<or> take 8 s = ''Infinity'' then Unmodelled
          else Malformed)"
| "parse_items 0 acc s = Unmodelled"
| "parse_items (Suc n) acc s =
     (case parse_value n s of
        Malformed \<Rightarrow> Malformed
      | Unmodelled \<Rightarrow> Unmodelled
      | Parsed (v, rest) \<Rightarrow>
          (case skip_ws rest of
             [] \<Rightarrow> Malformed
           | d # rest' \<Rightarrow>
               if d = CHR '']'' then Parsed (acc @ [v], rest')
               else if d = CHR '','' then parse_items n (acc @ [v]) (skip_ws rest')
               else Malformed))"
| "parse_pairs 0 acc s = Unmodelled"
| "parse_pairs (Suc n) acc s =
     (case s of
        [] \<Rightarrow> Malformed
      | q # cs \<Rightarrow>
          if q \<noteq> CHR 0x22 then Malformed
          else
            (case scan_string cs of
               Malformed \<Rightarrow> Malformed
             | Unmodelled \<Rightarrow> Unmodelled
             | Parsed (key, rest) \<Rightarrow>
                 (case skip_ws rest of
                    [] \<Rightarrow> Malformed
                  | colon # rest1 \<Rightarrow>
                      if colon \<noteq> CHR '':'' then Malformed
                      else
                        (case parse_value n (skip_ws rest1) of
                           Malformed \<Rightarrow> Malformed
                         | Unmodelled \<Rightarrow> Unmodelled
                         | Parsed (v, rest2) \<Rightarrow>
                             (case skip_ws rest2 of
                                [] \<Rightarrow> Malformed
                              | d # rest3 \<Rightarrow>
                                  if d = CHR ''}'' then Parsed (dict_set acc key v, rest3)
                                  else if d = CHR '','' then
                                    parse_pairs n (dict_set acc key v) (skip_ws rest3)
                                  else Malformed)))))"

definition json_loads :: "string \<Rightarrow> json parsed" where
  "json_loads s =
     (case parse_value (Suc (length s)) (skip_ws s) of
        Malformed \<Rightarrow> Malformed
      | Unmodelled \<Rightarrow> Unmodelled
      | Parsed (v, rest) \<Rightarrow> if skip_ws rest = [] then Parsed v else Malformed)"

text \<open>A value whose dictionaries have no key twice, as every Python value has.\<close>

fun wf_json :: "json \<Rightarrow> bool"
  and wf_items :: "json list \<Rightarrow> bool"
  and wf_pairs :: "(string \<times> json) list \<Rightarrow> bool" where
  "wf_json (JList xs) = wf_items xs"
| "wf_json (JDict kvs) = (distinct (map fst kvs) \<and> wf_pairs kvs)"
| "wf_json v = True"
| "wf_items [] = True"
| "wf_items (x # xs) = (wf_json x \<and> wf_items xs)"
| "wf_pairs [] = True"
| "wf_pairs ((k, v) # kvs) = (wf_json v \<and> wf_pairs kvs)"

text \<open>
  What may follow a value inside a text that \<^verbatim>\<open>json.dumps\<close> wrote (nothing, a comma
  or a closing bracket), and what a value can start with.
\<close>

definition delim :: "string \<Rightarrow> bool" where
  "delim rest = (case rest of [] \<Rightarrow> True
      | c # cs \<Rightarrow> c = CHR '','' \<or> c = CHR '']'' \<or> c = CHR ''}'')"

definition value_start :: "char \<Rightarrow> bool" where
  "value_start c = (\<not> is_ws c \<and> c \<noteq> CHR '']'' \<and> c \<noteq> CHR ''}'' \<and> c \<noteq> CHR '','')"

section \<open>The state of the client\<close>

text \<open>
  An \<^verbatim>\<open>asyncio.Future\<close> is pending until it gets a result, an exception or is
  cancelled. Futures live in a store and are referred to by their index, so that the
  handle a coroutine awaits and the handle in the slot \<^verbatim>\<open>_auth_future\<close> can differ.
\<close>

datatype future = Pending | Resolved json | Failed exn | Cancelled

text \<open>What the program does to the outside, in the order in which it does it.\<close>

datatype event =
    Print msg "json list"
  | PrintExn msg exn
  | Sleep nat
  | WsConnect
  | WsSend string
  | WsClose
  | CreateTaskListen
  | SessionSet string json
  | FileWrite dict
  | FutureCreated nat
  | FutureSetResult nat json
  | FutureSetException nat exn
  | FutureCancel nat

record world =
  ws_websocket :: bool
  ws_is_connected :: bool
  net_up :: bool
  conn_session_data :: dict
  conn_debug :: bool
  conn_seq :: int
  sess_data :: dict
  disk_writable :: bool
  disk_file :: "dict option"
  auth_future :: "nat option"
  auth_code_callback :: bool
  auth_phone :: "string option"
  futures :: "future list"
  trace :: "event list"
  produced :: "json list"

text \<open>
  The fields, by the object they belong to:
  \<^item> \<open>ws_websocket\<close> (\<^verbatim>\<open>_websocket\<close> is not \<^verbatim>\<open>None\<close>) and \<open>ws_is_connected\<close>
    (\<^verbatim>\<open>_is_connected\<close>) of \<^verbatim>\<open>WebSocketConnection\<close>;
  \<^item> \<open>conn_session_data\<close>, \<open>conn_debug\<close>, \<open>conn_seq\<close> of \<^verbatim>\<open>MaxConnection\<close>
    (\<^verbatim>\<open>_session_data\<close> is the copy that \<^verbatim>\<open>get_all()\<close> made at start);
  \<^item> \<open>sess_data\<close> is \<^verbatim>\<open>SessionManager._data\<close>, \<open>disk_file\<close> the content of the
    session file;
  \<^item> \<open>auth_future\<close>, \<open>auth_code_callback\<close> (a callback is set) and \<open>auth_phone\<close> of
    \<^verbatim>\<open>AuthManager\<close>;
  \<^item> \<open>net_up\<close> and \<open>disk_writable\<close> belong to the environment: the socket does not
    raise \<^verbatim>\<open>ConnectionClosed\<close>, the session file can be written;
  \<^item> \<open>trace\<close> is the history of effects and \<open>produced\<close> the history of the messages
    that \<^verbatim>\<open>_create_message\<close> returned.
\<close>

definition emit :: "event \<Rightarrow> world \<Rightarrow> world" where
  "emit e w = w\<lparr>trace := trace w @ [e]\<rparr>"

text \<open>\<^verbatim>\<open>MaxConnection.__init__\<close>, \<^verbatim>\<open>WebSocketConnection.__init__\<close>, \<^verbatim>\<open>AuthManager.__init__\<close>.\<close>

definition init_world :: "dict \<Rightarrow> bool \<Rightarrow> bool \<Rightarrow> dict option \<Rightarrow> world" where
  "init_world session debug writable file =
     \<lparr> ws_websocket = False, ws_is_connected = False, net_up = False,
       conn_session_data = session, conn_debug = debug, conn_seq = 0,
       sess_data = session, disk_writable = writable, disk_file = file,
       auth_future = None, auth_code_callback = False, auth_phone = None,
       futures = [], trace = [], produced = [] \<rparr>"

section \<open>connection.py\<close>

subsection \<open>WebSocketConnection\<close>

definition ws_connect :: "bool \<Rightarrow> bool \<Rightarrow> world \<Rightarrow> unit res \<times> world" where
  "ws_connect installed accepted w =
     (if \<not> installed then (Raise (ConnectionError ''websockets library not installed''), w)
      else if accepted
        then (Ret (), emit WsConnect (w\<lparr>ws_websocket := True, ws_is_connected := True, net_up := True\<rparr>))
        else (Raise (ConnectionError ''Failed to connect''), w))"

definition ws_send :: "string \<Rightarrow> world \<Rightarrow> unit res \<times> world" where
  "ws_send data w =
     (if \<not> ws_websocket w \<or> \<not> ws_is_connected w
        then (Raise (ConnectionError ''Not connected''), w)
      else if net_up w then (Ret (), emit (WsSend data) w)
      else (Raise (ConnectionError ''Connection closed''), w\<lparr>ws_is_connected := False\<rparr>))"

definition ws_close :: "world \<Rightarrow> world" where
  "ws_close w =
     (let w1 = (if ws_websocket w then emit WsClose (w\<lparr>net_up := False\<rparr>) else w)
      in w1\<lparr>ws_is_connected := False\<rparr>)"

subsection \<open>MaxConnection\<close>

definition is_connected :: "world \<Rightarrow> bool" where
  "is_connected w = ws_is_connected w"

text \<open>The dictionary that \<^verbatim>\<open>_create_message\<close> returns.\<close>

definition frame :: "json \<Rightarrow> int \<Rightarrow> int \<Rightarrow> int \<Rightarrow> json \<Rightarrow> json" where
  "frame ver cmd seq opcode payload =
     JDict [(''ver'', ver), (''cmd'', JInt cmd), (''seq'', JInt seq),
            (''opcode'', JInt opcode), (''payload'', payload)]"

definition create_message :: "int \<Rightarrow> json \<Rightarrow> int \<Rightarrow> world \<Rightarrow> json \<times> world" where
  "create_message opcode payload cmd w =
     (let w1 = w\<lparr>conn_seq := conn_seq w + 1\<rparr>;
          message = frame (dict_get (conn_session_data w1) ''version'' (JInt 11))
                      cmd (conn_seq w1) opcode payload
      in (message, w1\<lparr>produced := produced w1 @ [message]\<rparr>))"

definition conn_send :: "json \<Rightarrow> world \<Rightarrow> unit res \<times> world" where
  "conn_send message w =
     (let data = json_dumps message;
          w1 = (if conn_debug w then emit (Print DEBUG_SENDING [message]) w else w)
      in ws_send data w1)"

text \<open>The two lines that end every sender: \<^verbatim>\<open>await self._send(message); return self._seq\<close>.\<close>

definition send_return_seq :: "json \<Rightarrow> world \<Rightarrow> int res \<times> world" where
  "send_return_seq message w =
     (case conn_send message w of
        (Raise e, w1) \<Rightarrow> (Raise e, w1)
      | (Ret u, w1) \<Rightarrow> (Ret (conn_seq w1), w1))"

definition with_reply_to :: "dict \<Rightarrow> string option \<Rightarrow> dict" where
  "with_reply_to message_data reply_to =
     (case reply_to of
        None \<Rightarrow> message_data
      | Some r \<Rightarrow> if r \<noteq> [] then dict_set message_data ''replyTo'' (JStr r) else message_data)"

text \<open>\<open>cid\<close> is the reading \<^verbatim>\<open>int(time.time() * 1000)\<close> of the clock.\<close>

definition send_message :: "int \<Rightarrow> string \<Rightarrow> string option \<Rightarrow> int \<Rightarrow> world \<Rightarrow> int res \<times> world" where
  "send_message chat_id text reply_to cid w =
     (let message_data = with_reply_to
            [(''text'', JStr text), (''cid'', JInt cid),
             (''elements'', JList []), (''attaches'', JList [])] reply_to;
          payload = JDict [(''chatId'', JInt chat_id), (''message'', JDict message_data),
                           (''notify'', JBool True)];
          (message, w1) = create_message 64 payload 0 w
      in send_return_seq message w1)"

definition send_sticker :: "int \<Rightarrow> int \<Rightarrow> string option \<Rightarrow> int \<Rightarrow> world \<Rightarrow> int res \<times> world" where
  "send_sticker chat_id sticker_id reply_to cid w =
     (let message_data = with_reply_to
            [(''cid'', JInt cid),
             (''attaches'', JList [JDict [(''_type'', JStr ''STICKER''),
                                          (''stickerId'', JInt sticker_id)]])] reply_to;
          payload = JDict [(''chatId'', JInt chat_id), (''message'', JDict message_data),
                           (''notify'', JBool True)];
          (message, w1) = create_message 64 payload 0 w
      in send_return_seq message w1)"

definition send_reaction :: "int \<Rightarrow> string \<Rightarrow> string \<Rightarrow> string \<Rightarrow> world \<Rightarrow> int res \<times> world" where
  "send_reaction chat_id message_id reaction_type reaction_id w =
     (let payload = JDict [(''chatId'', JInt chat_id), (''messageId'', JStr message_id),
                           (''reaction'', JDict [(''reactionType'', JStr reaction_type),
                                                 (''id'', JStr reaction_id)])];
          (message, w1) = create_message 178 payload 0 w
      in send_return_seq message w1)"

definition edit_message :: "int \<Rightarrow> string \<Rightarrow> string \<Rightarrow> world \<Rightarrow> int res \<times> world" where
  "edit_message chat_id message_id text w =
     (let payload = JDict [(''chatId'', JInt chat_id), (''messageId'', JStr message_id),
                           (''text'', JStr text)];
          (message, w1) = create_message 21 payload 0 w
      in send_return_seq message w1)"

definition delete_message :: "int \<Rightarrow> string \<Rightarrow> world \<Rightarrow> int res \<times> world" where
  "delete_message chat_id message_id w =
     (let payload = JDict [(''chatId'', JInt chat_id), (''messageId'', JStr message_id)];
          (message, w1) = create_message 22 payload 0 w
      in send_return_seq message w1)"

definition send_events :: "json list \<Rightarrow> world \<Rightarrow> int res \<times> world" where
  "send_events events w =
     (let payload = JDict [(''events'', JList events)];
          (message, w1) = create_message 5 payload 0 w
      in send_return_seq message w1)"

definition send_auth_start :: "string \<Rightarrow> string \<Rightarrow> world \<Rightarrow> int res \<times> world" where
  "send_auth_start phone language w =
     (let payload = JDict [(''phone'', JStr phone), (''type'', JStr ''START_AUTH''),
                           (''language'', JStr language)];
          (message, w1) = create_message 17 payload 0 w
      in send_return_seq message w1)"

definition send_auth_code :: "json \<Rightarrow> json \<Rightarrow> world \<Rightarrow> int res \<times> world" where
  "send_auth_code token verify_code w =
     (let payload = JDict [(''token'', token), (''verifyCode'', verify_code),
                           (''authTokenType'', JStr ''CHECK_CODE'')];
          (message, w1) = create_message 18 payload 0 w
      in send_return_seq message w1)"

definition send_auth_token :: "json \<Rightarrow> bool \<Rightarrow> int \<Rightarrow> world \<Rightarrow> int res \<times> world" where
  "send_auth_token token interactive chats_count w =
     (let payload = JDict [(''interactive'', JBool interactive), (''token'', token),
                           (''chatsCount'', JInt chats_count), (''chatsSync'', JInt 0),
                           (''contactsSync'', JInt 0), (''presenceSync'', JInt 0),
                           (''draftsSync'', JInt 0)];
          (message, w1) = create_message 19 payload 0 w
      in send_return_seq message w1)"

definition send_get_chats :: "int list \<Rightarrow> world \<Rightarrow> int res \<times> world" where
  "send_get_chats chat_ids w =
     (let payload = JDict [(''chatIds'', JList (map JInt chat_ids))];
          (message, w1) = create_message 48 payload 0 w
      in send_return_seq message w1)"

definition send_get_contacts :: "int list \<Rightarrow> world \<Rightarrow> int res \<times> world" where
  "send_get_contacts contact_ids w =
     (let payload = JDict [(''contactIds'', JList (map JInt contact_ids))];
          (message, w1) = create_message 32 payload 0 w
      in send_return_seq message w1)"

definition get_user_agent_dict :: "world \<Rightarrow> json" where
  "get_user_agent_dict w =
     (let sd = conn_session_data w in JDict
        [(''deviceType'', dict_get sd ''device_type'' (JStr ''ANDROID'')),
         (''locale'', dict_get sd ''locale'' (JStr ''ru'')),
         (''deviceLocale'', dict_get sd ''device_locale'' (JStr ''ru'')),
         (''osVersion'', dict_get sd ''os_version'' (JStr ''Windows'')),
         (''deviceName'', dict_get sd ''device_name'' (JStr ''Chrome'')),
         (''headerUserAgent'', dict_get sd ''user_agent'' (JStr [])),
         (''appVersion'', dict_get sd ''app_version'' (JStr ''25.12.3'')),
         (''screen'', dict_get sd ''screen'' (JStr ''1080x1920 1.0x'')),
         (''timezone'', dict_get sd ''timezone'' (JStr ''Europe/Moscow''))])"

text \<open>
  \<^verbatim>\<open>_initialize\<close>. The slice \<^verbatim>\<open>[:8]\<close> of the device id is defined on strings and lists;
  on any other value it raises.
\<close>

definition initialize :: "world \<Rightarrow> unit res \<times> world" where
  "initialize w =
     (let w0 = emit (Print DEVICE_INIT []) w;
          init_payload = JDict [(''userAgent'', get_user_agent_dict w0),
                                (''deviceId'', dict_get (conn_session_data w0) ''device_id'' (JStr []))];
          (message, w1) = create_message 6 init_payload 0 w0
      in case conn_send message w1 of
           (Raise e, w2) \<Rightarrow> (Raise e, w2)
         | (Ret u, w2) \<Rightarrow>
             (case dict_get (conn_session_data w2) ''device_id'' (JStr []) of
                JStr s \<Rightarrow> (Ret (), emit (Print DEVICE_INIT_SENT [JStr (take 8 s)]) w2)
              | JList xs \<Rightarrow> (Ret (), emit (Print DEVICE_INIT_SENT [JList (take 8 xs)]) w2)
              | _ \<Rightarrow> (Raise (OtherException ''TypeError''), w2)))"

definition connect :: "bool \<Rightarrow> bool \<Rightarrow> world \<Rightarrow> unit res \<times> world" where
  "connect installed accepted w =
     (case ws_connect installed accepted w of
        (Raise e, w1) \<Rightarrow> (Raise e, w1)
      | (Ret u, w1) \<Rightarrow>
          (case initialize w1 of
             (Raise e, w2) \<Rightarrow> (Raise e, w2)
           | (Ret u, w2) \<Rightarrow> (Ret (), emit CreateTaskListen w2)))"

definition disconnect :: "world \<Rightarrow> unit res \<times> world" where
  "disconnect w = (Ret (), ws_close w)"

section \<open>session.py\<close>

definition session_get :: "string \<Rightarrow> world \<Rightarrow> json" where
  "session_get key w = dict_get (sess_data w) key JNull"

definition session_set :: "string \<Rightarrow> json \<Rightarrow> world \<Rightarrow> world" where
  "session_set key val w = emit (SessionSet key val) (w\<lparr>sess_data := dict_set (sess_data w) key val\<rparr>)"

text \<open>
  \<^verbatim>\<open>save\<close> writes the whole dictionary to the session file; a \<^verbatim>\<open>PermissionError\<close> or
  \<^verbatim>\<open>OSError\<close> is printed and swallowed.
\<close>

definition session_save :: "world \<Rightarrow> world" where
  "session_save w =
     (if disk_writable w
        then emit (FileWrite (sess_data w)) (w\<lparr>disk_file := Some (sess_data w)\<rparr>)
        else emit (PrintExn ERROR_SAVING_SESSION OSError) w)"

section \<open>asyncio futures\<close>

definition new_future :: "world \<Rightarrow> nat \<times> world" where
  "new_future w =
     (let fid = length (futures w)
      in (fid, emit (FutureCreated fid) (w\<lparr>futures := futures w @ [Pending]\<rparr>)))"

definition future_set_result :: "nat \<Rightarrow> json \<Rightarrow> world \<Rightarrow> world" where
  "future_set_result fid v w =
     emit (FutureSetResult fid v) (w\<lparr>futures := (futures w)[fid := Resolved v]\<rparr>)"

definition future_set_exception :: "nat \<Rightarrow> exn \<Rightarrow> world \<Rightarrow> world" where
  "future_set_exception fid e w =
     emit (FutureSetException fid e) (w\<lparr>futures := (futures w)[fid := Failed e]\<rparr>)"

definition future_cancel :: "nat \<Rightarrow> world \<Rightarrow> world" where
  "future_cancel fid w =
     emit (FutureCancel fid) (w\<lparr>futures := (futures w)[fid := Cancelled]\<rparr>)"

text \<open>
  The guard \<^verbatim>\<open>self._auth_future and not self._auth_future.done()\<close>: the handle in
  the slot, when there is one and it is pending.
\<close>

definition pending_handle :: "world \<Rightarrow> nat option" where
  "pending_handle w =
     (case auth_future w of
        None \<Rightarrow> None
      | Some fid \<Rightarrow>
          if fid < length (futures w) \<and> futures w ! fid = Pending then Some fid else None)"

section \<open>auth\_manager.py\<close>

definition AUTH_DELAY_ms :: nat where
  "AUTH_DELAY_ms = 500"

definition AUTH_TIMEOUT_ms :: nat where
  "AUTH_TIMEOUT_ms = 60000"

text \<open>
  A coroutine runs until it returns, raises, or suspends on a future: \<open>Awaiting fid\<close> is
  \<^verbatim>\<open>await fut\<close>, \<open>AwaitingFor fid ms\<close> is \<^verbatim>\<open>await asyncio.wait_for(fut, timeout)\<close>.
\<close>

datatype outcome = Returned | Raised exn | Awaiting nat | AwaitingFor nat nat

text \<open>\<^verbatim>\<open>payload.get(key, default)\<close> on a value that may not be a dictionary.\<close>

definition py_get :: "json \<Rightarrow> string \<Rightarrow> json \<Rightarrow> json res" where
  "py_get obj key dflt =
     (case obj of JDict d \<Rightarrow> Ret (dict_get d key dflt) | _ \<Rightarrow> Raise AttributeError)"

text \<open>The two navigation events; \<open>t1\<close> and \<open>t2\<close> are the two readings of the loop's clock.\<close>

definition navigation_events :: "int \<Rightarrow> int \<Rightarrow> json list" where
  "navigation_events t1 t2 =
     [JDict [(''type'', JStr ''COLD_START''), (''time'', JInt t1)],
      JDict [(''type'', JStr ''GO''), (''page'', JInt 1), (''time'', JInt t2)]]"

text \<open>
  \<^verbatim>\<open>authenticate\<close>, up to the point where it suspends on its future. The argument
  \<open>code_callback\<close> says whether a callback was passed.
\<close>

definition authenticate :: "string option \<Rightarrow> bool \<Rightarrow> int \<Rightarrow> int \<Rightarrow> world \<Rightarrow> outcome \<times> world" where
  "authenticate phone code_callback t1 t2 w =
     (let token = session_get ''token'' w in
      if truthy token then
        (let w1 = emit (Print FOUND_TOKEN []) w;
             w2 = emit (Sleep AUTH_DELAY_ms) w1
         in case send_auth_token token False DEFAULT_CHATS_COUNT w2 of
              (Raise e, w3) \<Rightarrow> (Raised e, w3)
            | (Ret n, w3) \<Rightarrow>
                (let w4 = emit (Print TOKEN_SENT []) w3;
                     (fid, w5) = new_future w4
                 in (Awaiting fid, w5\<lparr>auth_future := Some fid\<rparr>)))
      else
        (case phone of
           None \<Rightarrow> (Returned, w)
         | Some p \<Rightarrow>
             if p = [] then (Returned, w)
             else
               (let w1 = emit (Print PHONE_SENDING [JStr p]) w;
                    w2 = w1\<lparr>auth_phone := Some p\<rparr>;
                    w3 = session_set ''phone'' (JStr p) w2;
                    w4 = session_save w3;
                    w5 = w4\<lparr>auth_code_callback := code_callback\<rparr>
                in case send_auth_start p ''ru'' w5 of
                     (Raise e, w6) \<Rightarrow> (Raised e, w6)
                   | (Ret n, w6) \<Rightarrow>
                       (let w7 = emit (Print PHONE_SENT []) w6;
                            events = navigation_events t1 t2
                        in case send_events events w7 of
                             (Raise e, w8) \<Rightarrow> (Raised e, w8)
                           | (Ret n, w8) \<Rightarrow>
                               (let w9 = emit (Print NAVIGATION_EVENTS_SENT []) w8;
                                    (fid, w10) = new_future w9
                                in (Awaiting fid, w10\<lparr>auth_future := Some fid\<rparr>))))))"

text \<open>What \<^verbatim>\<open>await self._auth_future\<close> in \<^verbatim>\<open>authenticate\<close> does once the future is done.\<close>

definition authenticate_resume :: "nat \<Rightarrow> world \<Rightarrow> outcome" where
  "authenticate_resume fid w =
     (if fid < length (futures w) then
        (case futures w ! fid of
           Pending \<Rightarrow> Awaiting fid
         | Resolved v \<Rightarrow> Returned
         | Failed e \<Rightarrow> Raised e
         | Cancelled \<Rightarrow> Raised CancelledError)
      else Awaiting fid)"

definition on_auth_success :: "json \<Rightarrow> world \<Rightarrow> outcome \<times> world" where
  "on_auth_success payload w =
     (case py_get payload ''token'' JNull of
        Raise e \<Rightarrow> (Raised e, w)
      | Ret new_token \<Rightarrow>
          (let w1 = (if truthy new_token
                     then session_save (session_set ''token'' new_token w) else w)
           in case pending_handle w1 of
                Some fid \<Rightarrow> (Returned, future_set_result fid payload w1)
              | None \<Rightarrow> (Returned, w1)))"

text \<open>
  \<^verbatim>\<open>_on_auth_code_requested\<close>; \<open>code\<close> is what the callback returns (after awaiting it,
  when it is a coroutine).
\<close>

definition on_auth_code_requested :: "json \<Rightarrow> json \<Rightarrow> world \<Rightarrow> outcome \<times> world" where
  "on_auth_code_requested payload code w =
     (case py_get payload ''token'' JNull of
        Raise e \<Rightarrow> (Raised e, w)
      | Ret token \<Rightarrow>
          (let w1 = emit (Print CODE_REQUESTED []) w in
           if auth_code_callback w1 \<and> truthy code then
             (let w2 = emit (Print SENDING_CODE []) w1
              in case send_auth_code token code w2 of
                   (Raise e, w3) \<Rightarrow> (Raised e, w3)
                 | (Ret n, w3) \<Rightarrow> (Returned, emit (Print CODE_SENT []) w3))
           else (Returned, w1)))"

text \<open>The lookup \<^verbatim>\<open>payload.get("tokenAttrs", {}).get("LOGIN", {}).get("token")\<close>.\<close>

definition login_token_of :: "json \<Rightarrow> json res" where
  "login_token_of payload =
     (case py_get payload ''tokenAttrs'' (JDict []) of
        Raise e \<Rightarrow> Raise e
      | Ret token_attrs \<Rightarrow>
          (case py_get token_attrs ''LOGIN'' (JDict []) of
             Raise e \<Rightarrow> Raise e
           | Ret login \<Rightarrow> py_get login ''token'' JNull))"

definition on_auth_code_checked :: "json \<Rightarrow> world \<Rightarrow> outcome \<times> world" where
  "on_auth_code_checked payload w =
     (case login_token_of payload of
        Raise e \<Rightarrow> (Raised e, w)
      | Ret login_token \<Rightarrow>
          if truthy login_token then
            (let w1 = emit (Print CODE_VERIFIED []) w;
                 w2 = session_set ''token'' login_token w1;
                 w3 = session_save w2;
                 w4 = emit (Print TOKEN_SAVED []) w3;
                 w5 = emit (Print SENDING_TOKEN []) w4
             in case send_auth_token login_token False DEFAULT_CHATS_COUNT w5 of
                  (Raise e, w6) \<Rightarrow> (Raised e, w6)
                | (Ret n, w6) \<Rightarrow> (Returned, emit (Print TOKEN_SENT []) w6))
          else (Returned, w))"

definition token_invalid :: "json \<Rightarrow> json \<Rightarrow> bool" where
  "token_invalid error message = (error = JStr ''login.token'' \<or> message = JStr ''FAIL_LOGIN_TOKEN'')"

text \<open>
  \<^verbatim>\<open>_on_auth_error\<close>, up to the point where it returns, raises or suspends in
  \<^verbatim>\<open>wait_for\<close>.
\<close>

definition on_auth_error :: "json \<Rightarrow> int \<Rightarrow> int \<Rightarrow> world \<Rightarrow> outcome \<times> world" where
  "on_auth_error payload t1 t2 w =
     (case py_get payload ''error'' JNull of
        Raise e \<Rightarrow> (Raised e, w)
      | Ret error \<Rightarrow>
     (case py_get payload ''message'' JNull of
        Raise e \<Rightarrow> (Raised e, w)
      | Ret message \<Rightarrow>
          (let w1 = emit (Print AUTH_ERROR [message]) w in
           if token_invalid error message then
             (let w2 = emit (Print TOKEN_INVALID []) w1;
                  w3 = session_set ''token'' JNull w2;
                  w4 = session_save w3
              in case auth_phone w4 of
                   Some p \<Rightarrow>
                     if p \<noteq> [] then
                       (let w5 = emit (Print REQUESTING_REAUTH []) w4
                        in case send_auth_start p ''ru'' w5 of
                             (Raise e, w6) \<Rightarrow> (Raised e, w6)
                           | (Ret n, w6) \<Rightarrow>
                               (let events = navigation_events t1 t2
                                in case send_events events w6 of
                                     (Raise e, w7) \<Rightarrow> (Raised e, w7)
                                   | (Ret n, w7) \<Rightarrow>
                                       (let (fid, w8) = new_future w7
                                        in (AwaitingFor fid AUTH_TIMEOUT_ms,
                                            w8\<lparr>auth_future := Some fid\<rparr>))))
                     else
                       (let w5 = emit (Print PHONE_NOT_FOUND []) w4
                        in case pending_handle w5 of
                             Some fid \<Rightarrow>
                               (Returned, future_set_exception fid
                                  (AuthError (Lit ''Phone number not found'')) w5)
                           | None \<Rightarrow> (Returned, w5))
                 | None \<Rightarrow>
                     (let w5 = emit (Print PHONE_NOT_FOUND []) w4
                      in case pending_handle w5 of
                           Some fid \<Rightarrow>
                             (Returned, future_set_exception fid
                                (AuthError (Lit ''Phone number not found'')) w5)
                         | None \<Rightarrow> (Returned, w5)))
           else
             (case pending_handle w1 of
                Some fid \<Rightarrow>
                  (Returned, future_set_exception fid
                     (AuthError (Fmt ''Auth error: '' message)) w1)
              | None \<Rightarrow> (Returned, w1)))))"

text \<open>
  The end of \<^verbatim>\<open>wait_for\<close> in \<^verbatim>\<open>_on_auth_error\<close>: with the future still pending the
  time is up, \<^verbatim>\<open>wait_for\<close> cancels the future and the handler prints the timeout;
  with a result it prints the success; an exception of the future leaves the handler.
\<close>

definition reauth_wait_end :: "nat \<Rightarrow> world \<Rightarrow> outcome \<times> world" where
  "reauth_wait_end fid w =
     (if fid < length (futures w) then
        (case futures w ! fid of
           Pending \<Rightarrow> (Returned, emit (Print AUTH_TIMEOUT []) (future_cancel fid w))
         | Resolved v \<Rightarrow> (Returned, emit (Print REAUTH_SUCCESSFUL []) w)
         | Failed e \<Rightarrow> (Raised e, w)
         | Cancelled \<Rightarrow> (Raised CancelledError, w))
      else (Returned, w))"

definition on_auth_code_error :: "json \<Rightarrow> world \<Rightarrow> outcome \<times> world" where
  "on_auth_code_error payload w =
     (case py_get payload ''error'' JNull of
        Raise e \<Rightarrow> (Raised e, w)
      | Ret error \<Rightarrow>
     (case py_get payload ''message'' JNull of
        Raise e \<Rightarrow> (Raised e, w)
      | Ret message \<Rightarrow>
     (case py_get payload ''localizedMessage'' message of
        Raise e \<Rightarrow> (Raised e, w)
      | Ret localized_message \<Rightarrow>
          (let w1 = emit (Print AUTH_CODE_ERROR [localized_message]) w;
               w2 = (if error = JStr ''error.limit.violate''
                     then emit (Print TOO_MANY_ATTEMPTS []) w1 else w1)
           in case pending_handle w2 of
                Some fid \<Rightarrow>
                  (Returned, future_set_exception fid
                     (AuthError (Fmt ''Auth code error: '' localized_message)) w2)
              | None \<Rightarrow> (Returned, w2)))))"

section \<open>Runs of the client\<close>

text \<open>
  One action is one call of a method of \<^verbatim>\<open>MaxConnection\<close>, one call of
  \<^verbatim>\<open>authenticate\<close>, one event handler of \<^verbatim>\<open>AuthManager\<close> run by the listen loop, the
  end of the wait in the re-authentication, or a change of the environment (the peer
  closes the socket, the session file becomes writable or not).
\<close>

datatype action =
    Connect bool bool
  | Disconnect
  | SendMessage int string "string option" int
  | SendSticker int int "string option" int
  | SendReaction int string string string
  | EditMessage int string string
  | DeleteMessage int string
  | SendEvents "json list"
  | SendAuthStart string string
  | SendAuthCode json json
  | SendAuthToken json bool int
  | SendGetChats "int list"
  | SendGetContacts "int list"
  | Authenticate "string option" bool int int
  | EvAuthSuccess json
  | EvAuthCodeRequested json json
  | EvAuthCodeChecked json
  | EvAuthError json int int
  | EvAuthCodeError json
  | ReauthWaitEnd nat
  | NetDown
  | DiskWritable bool

fun step :: "action \<Rightarrow> world \<Rightarrow> world" where
  "step (Connect installed accepted) w = snd (connect installed accepted w)"
| "step Disconnect w = snd (disconnect w)"
| "step (SendMessage chat_id text reply_to cid) w = snd (send_message chat_id text reply_to cid w)"
| "step (SendSticker chat_id sticker_id reply_to cid) w =
     snd (send_sticker chat_id sticker_id reply_to cid w)"
| "step (SendReaction chat_id message_id reaction_type reaction_id) w =
     snd (send_reaction chat_id message_id reaction_type reaction_id w)"
| "step (EditMessage chat_id message_id text) w = snd (edit_message chat_id message_id text w)"
| "step (DeleteMessage chat_id message_id) w = snd (delete_message chat_id message_id w)"
| "step (SendEvents events) w = snd (send_events events w)"
| "step (SendAuthStart phone language) w = snd (send_auth_start phone language w)"
| "step (SendAuthCode token verify_code) w = snd (send_auth_code token verify_code w)"
| "step (SendAuthToken token interactive chats_count) w =
     snd (send_auth_token token interactive chats_count w)"
| "step (SendGetChats chat_ids) w = snd (send_get_chats chat_ids w)"
| "step (SendGetContacts contact_ids) w = snd (send_get_contacts contact_ids w)"
| "step (Authenticate phone code_callback t1 t2) w = snd (authenticate phone code_callback t1 t2 w)"
| "step (EvAuthSuccess payload) w = snd (on_auth_success payload w)"
| "step (EvAuthCodeRequested payload code) w = snd (on_auth_code_requested payload code w)"
| "step (EvAuthCodeChecked payload) w = snd (on_auth_code_checked payload w)"
| "step (EvAuthError payload t1 t2) w = snd (on_auth_error payload t1 t2 w)"
| "step (EvAuthCodeError payload) w = snd (on_auth_code_error payload w)"
| "step (ReauthWaitEnd fid) w = snd (reauth_wait_end fid w)"
| "step NetDown w = w\<lparr>net_up := False\<rparr>"
| "step (DiskWritable b) w = w\<lparr>disk_writable := b\<rparr>"

fun run :: "action list \<Rightarrow> world \<Rightarrow> world" where
  "run [] w = w"
| "run (a # as) w = run as (step a w)"

text \<open>The fields of a message that \<^verbatim>\<open>_create_message\<close> built.\<close>

definition frame_field :: "string \<Rightarrow> json \<Rightarrow> json" where
  "frame_field key message = (case message of JDict d \<Rightarrow> dict_get d key JNull | _ \<Rightarrow> JNull)"

text \<open>The strings handed to the socket, oldest first.\<close>

fun wire :: "event list \<Rightarrow> string list" where
  "wire [] = []"
| "wire (WsSend data # es) = data # wire es"
| "wire (e # es) = wire es"

text \<open>
  The sequence counter together with the messages built so far, and what holds of them:
  the counter is the number of messages, their \<open>seq\<close> fields count from 1, and
  their \<open>cmd\<close> fields are 0.
\<close>

definition frames_of :: "world \<Rightarrow> int \<times> json list" where
  "frames_of w = (conn_seq w, produced w)"

definition frames_ok :: "int \<times> json list \<Rightarrow> bool" where
  "frames_ok p = (case p of (n, ms) \<Rightarrow>
      n = int (length ms) \<and> map (frame_field ''seq'') ms = map JInt [1..n]
      \<and> map (frame_field ''cmd'') ms = replicate (length ms) (JInt 0))"

text \<open>The socket accepts a send: it exists, is marked connected, and the peer is there.\<close>

definition usable :: "world \<Rightarrow> bool" where
  "usable w = (ws_websocket w \<and> ws_is_connected w \<and> net_up w)"

text \<open>What \<^verbatim>\<open>_send\<close> prints before it sends, in debug mode.\<close>

definition debug_line :: "world \<Rightarrow> json \<Rightarrow> event list" where
  "debug_line w message = (if conn_debug w then [Print DEBUG_SENDING [message]] else [])"

text \<open>What \<^verbatim>\<open>save\<close> does to the outside: it writes the file or prints the error.\<close>

definition save_event :: "world \<Rightarrow> dict \<Rightarrow> event" where
  "save_event w d = (if disk_writable w then FileWrite d else PrintExn ERROR_SAVING_SESSION OSError)"

text \<open>The version that \<^verbatim>\<open>_create_message\<close> puts into a message.\<close>

definition ver_of :: "world \<Rightarrow> json" where
  "ver_of w = dict_get (conn_session_data w) ''version'' (JInt 11)"

text \<open>
  The effect of a sender on a usable socket: the counter moves on, the message is
  built, printed in debug mode and written to the socket.
\<close>

definition sent :: "int \<Rightarrow> json \<Rightarrow> world \<Rightarrow> world" where
  "sent opcode payload w =
     (let m = frame (ver_of w) 0 (conn_seq w + 1) opcode payload
      in w\<lparr>conn_seq := conn_seq w + 1, produced := produced w @ [m],
            trace := trace w @ debug_line w m @ [WsSend (json_dumps m)]\<rparr>)"

text \<open>The part of the state that no sender touches.\<close>

definition rest_of :: "world \<Rightarrow>
    dict \<times> bool \<times> dict option \<times> nat option \<times> bool \<times> string option \<times> future list \<times> dict \<times> bool" where
  "rest_of w = (sess_data w, disk_writable w, disk_file w, auth_future w, auth_code_callback w,
                auth_phone w, futures w, conn_session_data w, conn_debug w)"

text \<open>
  Worlds for the examples: a client right after a successful \<^verbatim>\<open>connect\<close> (debug off,
  session file writable and absent), then one that waits in \<^verbatim>\<open>authenticate\<close> on the
  token path, and one that waits on the phone path.
\<close>

definition connected_world :: "dict \<Rightarrow> world" where
  "connected_world session = snd (connect True True (init_world session False True None))"

definition token_waiting :: world where
  "token_waiting = snd (authenticate None False 0 0 (connected_world [(''token'', JStr ''T'')]))"

definition phone_waiting :: world where
  "phone_waiting = snd (authenticate (Some ''+79001234567'') True 7 8 (connected_world []))"

text \<open>
  About the futures: the slot refers to a future that exists; the number of futures
  that are still pending; and the runs in which no step creates a future while the
  future of the slot is still pending.
\<close>

definition slot_valid :: "world \<Rightarrow> bool" where
  "slot_valid w = (case auth_future w of None \<Rightarrow> True | Some fid \<Rightarrow> fid < length (futures w))"

definition outstanding :: "world \<Rightarrow> nat" where
  "outstanding w = length (filter (\<lambda>f. f = Pending) (futures w))"

fun disciplined :: "action list \<Rightarrow> world \<Rightarrow> bool" where
  "disciplined [] w = True"
| "disciplined (a # as) w =
     ((length (futures (step a w)) = length (futures w) \<or> pending_handle w = None)
      \<and> disciplined as (step a w))"

text \<open>
  How a step may change the futures and the slot: not at all; by a new pending future
  that goes into the slot; by settling the pending future of the slot; or by
  cancelling a pending future.
\<close>

definition fut_step :: "world \<Rightarrow> world \<Rightarrow> bool" where
  "fut_step w w' =
     ((futures w' = futures w \<and> auth_future w' = auth_future w)
    \<or> (futures w' = futures w @ [Pending] \<and> auth_future w' = Some (length (futures w)))
    \<or> (\<exists>i f. pending_handle w = Some i \<and> f \<noteq> Pending \<and> futures w' = (futures w)[i := f]
           \<and> auth_future w' = auth_future w)
    \<or> (\<exists>i. i < length (futures w) \<and> futures w ! i = Pending
           \<and> futures w' = (futures w)[i := Cancelled] \<and> auth_future w' = auth_future w))"

text \<open>Every pending future is the one the slot refers to.\<close>

definition only_slot_pending :: "world \<Rightarrow> bool" where
  "only_slot_pending w =
     (\<forall>i < length (futures w). futures w ! i = Pending \<longrightarrow> auth_future w = Some i)"

text \<open>
  The strings written to the socket next to the messages built, and how the pair
  grows from one state to a later one: what was written and what was built stays, and
  the strings written since are, in their order, encodings of messages built since.
\<close>

definition written_of :: "world \<Rightarrow> string list \<times> json list" where
  "written_of w = (wire (trace w), produced w)"

definition grows :: "string list \<times> json list \<Rightarrow> string list \<times> json list \<Rightarrow> bool" where
  "grows p q =
     (prefix (fst p) (fst q) \<and> prefix (snd p) (snd q)
      \<and> subseq (drop (length (fst p)) (fst q)) (map json_dumps (drop (length (snd p)) (snd q))))"

text \<open>A run for the examples: connect, log in with a token, send telemetry.\<close>

definition all_defs_demo_run :: "action list" where
  "all_defs_demo_run = [Connect True True, SendAuthToken (JStr ''T'') False 40, SendEvents []]"


section \<open>The listen loop\<close>

text \<open>
  A registered handler, run to its end: it returns or raises. The registry
  \<^verbatim>\<open>_message_handlers\<close> maps an event name to the handlers in the order of their
  registration.
\<close>

type_synonym handler = "json \<Rightarrow> world \<Rightarrow> unit res \<times> world"

type_synonym registry = "string \<rightharpoonup> handler list"

definition register_event_handler :: "string \<Rightarrow> handler \<Rightarrow> registry \<Rightarrow> registry" where
  "register_event_handler event h reg =
     reg(event \<mapsto> (case reg event of None \<Rightarrow> [] | Some hs \<Rightarrow> hs) @ [h])"

text \<open>\<^verbatim>\<open>call_handlers\<close>: one handler after the other; the first exception ends the call.\<close>

fun call_handlers :: "handler list \<Rightarrow> json \<Rightarrow> world \<Rightarrow> unit res \<times> world" where
  "call_handlers [] payload w = (Ret (), w)"
| "call_handlers (h # hs) payload w =
     (case h payload w of
        (Raise e, w1) \<Rightarrow> (Raise e, w1)
      | (Ret u, w1) \<Rightarrow> call_handlers hs payload w1)"

text \<open>
  \<^verbatim>\<open>cmd == 1\<close> and the like on a decoded value: Python compares a boolean with an
  integer as 0 or 1.
\<close>

definition eq_int :: "json \<Rightarrow> int \<Rightarrow> bool" where
  "eq_int v n =
     (case v of JInt i \<Rightarrow> i = n | JBool b \<Rightarrow> (if b then 1 else 0) = n | _ \<Rightarrow> False)"

text \<open>The table from \<open>(cmd, opcode)\<close> to the event name in \<^verbatim>\<open>_handle_message\<close>.\<close>

definition event_name_of :: "json \<Rightarrow> json \<Rightarrow> string option" where
  "event_name_of cmd opcode =
     (if eq_int cmd 1 then
        (if eq_int opcode 19 then Some ''auth_success''
         else if eq_int opcode 17 then Some ''auth_code_requested''
         else if eq_int opcode 18 then Some ''auth_code_checked''
         else if eq_int opcode 64 then Some ''message_sent''
         else if eq_int opcode 32 then Some ''contacts_update''
         else if eq_int opcode 48 then Some ''chats_update''
         else None)
      else if eq_int cmd 3 then
        (if eq_int opcode 19 then Some ''auth_error''
         else if eq_int opcode 17 then Some ''auth_code_error''
         else None)
      else if eq_int cmd 0 then
        (if eq_int opcode 128 then Some ''new_message'' else None)
      else None)"

definition handle_message :: "registry \<Rightarrow> json \<Rightarrow> world \<Rightarrow> unit res \<times> world" where
  "handle_message reg message w =
     (case message of
        JDict d \<Rightarrow>
          if d = [] then (Ret (), w)
          else
            (let opcode = dict_get d ''opcode'' JNull;
                 cmd = dict_get d ''cmd'' JNull;
                 payload = dict_get d ''payload'' (JDict [])
             in case event_name_of cmd opcode of
                  None \<Rightarrow> (Ret (), w)
                | Some event_name \<Rightarrow>
                    (if event_name \<noteq> [] then
                       (case reg event_name of
                          None \<Rightarrow> (Ret (), w)
                        | Some handlers \<Rightarrow> call_handlers handlers payload w)
                     else (Ret (), w)))
      | _ \<Rightarrow> (Ret (), w))"

text \<open>
  What one \<^verbatim>\<open>wait_for(self._connection.receive(), timeout=1.0)\<close> meets: nothing
  within the second, a text, the end of the connection (the socket raises
  \<^verbatim>\<open>ConnectionClosed\<close>), or another exception of the socket.
\<close>

datatype recv = RecvTimeout | RecvData string | RecvClosed | RecvRaise exn

definition ws_receive :: "recv \<Rightarrow> world \<Rightarrow> string res \<times> world" where
  "ws_receive r w =
     (if \<not> ws_websocket w \<or> \<not> ws_is_connected w
        then (Raise (ConnectionError ''Connection closed''), w)
      else
        (case r of
           RecvTimeout \<Rightarrow> (Raise TimeoutError, w)
         | RecvData data \<Rightarrow> (Ret data, w)
         | RecvClosed \<Rightarrow>
             (Raise (ConnectionError ''Connection closed''),
              w\<lparr>ws_is_connected := False, net_up := False\<rparr>)
         | RecvRaise e \<Rightarrow> (Raise e, w)))"

text \<open>
  The inner \<^verbatim>\<open>try\<close> of \<^verbatim>\<open>_listen\<close>: decode, print in debug mode, dispatch; a
  \<^verbatim>\<open>JSONDecodeError\<close> is printed in debug mode and dropped. The decoder
  \<^verbatim>\<open>json.loads\<close> is the parameter \<open>loads\<close>.
\<close>

definition listen_decode :: "(string \<Rightarrow> json res) \<Rightarrow> registry \<Rightarrow> string \<Rightarrow> world \<Rightarrow> unit res \<times> world" where
  "listen_decode loads reg data w =
     (let (r, w2) =
        (case loads data of
           Raise e \<Rightarrow> (Raise e, w)
         | Ret message \<Rightarrow>
             (let w1 = (if conn_debug w then emit (Print DEBUG_RECEIVED [message]) w else w)
              in handle_message reg message w1))
      in case r of
           Raise JSONDecodeError \<Rightarrow>
             (Ret (), if conn_debug w2 then emit (Print DEBUG_JSON_PARSE_FAILED [JStr data]) w2
                      else w2)
         | _ \<Rightarrow> (r, w2))"

text \<open>The body of the outer \<^verbatim>\<open>try\<close>.\<close>

definition listen_try :: "(string \<Rightarrow> json res) \<Rightarrow> registry \<Rightarrow> recv \<Rightarrow> world \<Rightarrow> unit res \<times> world" where
  "listen_try loads reg r w =
     (case ws_receive r w of
        (Raise e, w1) \<Rightarrow> (Raise e, w1)
      | (Ret data, w1) \<Rightarrow>
          if data \<noteq> [] then listen_decode loads reg data w1 else (Ret (), w1))"

text \<open>
  The loop, over what the socket delivers. It ends when the connection is not marked
  connected or on a \<^verbatim>\<open>ConnectionError\<close> (\<open>Stopped\<close>); with nothing more delivered it
  stays in \<^verbatim>\<open>receive\<close> (\<open>Receiving\<close>). The clause \<^verbatim>\<open>except Exception\<close> does not catch
  a \<^verbatim>\<open>CancelledError\<close>, which leaves the loop (\<open>Crashed\<close>).
\<close>

datatype listen_status = Receiving | Stopped | Crashed exn

fun listen :: "(string \<Rightarrow> json res) \<Rightarrow> registry \<Rightarrow> recv list \<Rightarrow> world \<Rightarrow> listen_status \<times> world" where
  "listen loads reg [] w = (if is_connected w then Receiving else Stopped, w)"
| "listen loads reg (r # rs) w =
     (if \<not> is_connected w then (Stopped, w)
      else
        (case listen_try loads reg r w of
           (Ret u, w1) \<Rightarrow> listen loads reg rs w1
         | (Raise TimeoutError, w1) \<Rightarrow> listen loads reg rs w1
         | (Raise (ConnectionError m), w1) \<Rightarrow> (Stopped, emit (Print WEBSOCKET_CLOSED []) w1)
         | (Raise CancelledError, w1) \<Rightarrow> (Crashed CancelledError, w1)
         | (Raise e, w1) \<Rightarrow> listen loads reg rs (emit (PrintExn ERROR_RECEIVING e) w1)))"

text \<open>
  The handlers of \<^verbatim>\<open>AuthManager\<close> as the loop runs them. The loop stays in the handler
  of \<open>auth_error\<close> while that waits for the re-authentication; \<open>t1\<close>, \<open>t2\<close> are the
  readings of the clock, \<open>code\<close> is what the code callback returns.
\<close>

definition finished :: "outcome \<times> world \<Rightarrow> unit res \<times> world" where
  "finished rw =
     (case rw of
        (Returned, w) \<Rightarrow> (Ret (), w)
      | (Raised e, w) \<Rightarrow> (Raise e, w)
      | (Awaiting fid, w) \<Rightarrow> (Ret (), w)
      | (AwaitingFor fid ms, w) \<Rightarrow>
          (case reauth_wait_end fid w of
             (Raised e, w1) \<Rightarrow> (Raise e, w1)
           | (other, w1) \<Rightarrow> (Ret (), w1)))"

definition setup_handlers :: "json \<Rightarrow> int \<Rightarrow> int \<Rightarrow> registry \<Rightarrow> registry" where
  "setup_handlers code t1 t2 reg =
     register_event_handler ''auth_code_error'' (\<lambda>p w. finished (on_auth_code_error p w))
    (register_event_handler ''auth_error'' (\<lambda>p w. finished (on_auth_error p t1 t2 w))
    (register_event_handler ''auth_code_checked'' (\<lambda>p w. finished (on_auth_code_checked p w))
    (register_event_handler ''auth_code_requested'' (\<lambda>p w. finished (on_auth_code_requested p code w))
    (register_event_handler ''auth_success'' (\<lambda>p w. finished (on_auth_success p w)) reg))))"

section \<open>Sequence numbers and commands of the outbound frames\<close>

lemma frames_of_emit [simp]: "frames_of (emit e w) = frames_of w"
  by (simp add: frames_of_def emit_def)

lemma frames_of_ws_send [simp]: "frames_of (snd (ws_send d w)) = frames_of w"
  by (simp add: frames_of_def ws_send_def emit_def)

lemma frames_of_conn_send [simp]: "frames_of (snd (conn_send m w)) = frames_of w"
  by (simp add: conn_send_def Let_def)

lemma frames_of_send_return_seq [simp]: "frames_of (snd (send_return_seq m w)) = frames_of w"
proof -
  have "frames_of (snd (conn_send m w)) = frames_of w" by simp
  then show ?thesis
    by (cases "conn_send m w") (auto simp: send_return_seq_def split: res.splits)
qed

lemma frames_ok_create:
  assumes "frames_ok (frames_of w)"
  shows "frames_ok (frames_of (snd (create_message opc p 0 w)))"
proof -
  have n: "conn_seq w = int (length (produced w))" using assms by (simp add: frames_ok_def frames_of_def)
  then have "[1..conn_seq w + 1] = [1..conn_seq w] @ [conn_seq w + 1]"
    by (simp add: upto_rec2)
  then show ?thesis using assms
    by (simp add: frames_ok_def frames_of_def create_message_def frame_def Let_def frame_field_def dict_get_def replicate_append_same)
qed


lemma frames_of_updates [simp]:
  "frames_of (w\<lparr>ws_websocket := a\<rparr>) = frames_of w"
  "frames_of (w\<lparr>ws_is_connected := a\<rparr>) = frames_of w"
  "frames_of (w\<lparr>net_up := a\<rparr>) = frames_of w"
  "frames_of (w\<lparr>sess_data := sd\<rparr>) = frames_of w"
  "frames_of (w\<lparr>disk_writable := a\<rparr>) = frames_of w"
  "frames_of (w\<lparr>disk_file := df\<rparr>) = frames_of w"
  "frames_of (w\<lparr>auth_future := af\<rparr>) = frames_of w"
  "frames_of (w\<lparr>auth_code_callback := a\<rparr>) = frames_of w"
  "frames_of (w\<lparr>auth_phone := ph\<rparr>) = frames_of w"
  "frames_of (w\<lparr>futures := fs\<rparr>) = frames_of w"
  "frames_of (w\<lparr>trace := tr\<rparr>) = frames_of w"
  by (simp_all add: frames_of_def)

lemma frames_of_session [simp]:
  "frames_of (session_set k v w) = frames_of w"
  "frames_of (session_save w) = frames_of w"
  by (simp_all add: session_set_def session_save_def)

lemma frames_of_futures [simp]:
  "frames_of (snd (new_future w)) = frames_of w"
  "frames_of (future_set_result i v w) = frames_of w"
  "frames_of (future_set_exception i e w) = frames_of w"
  "frames_of (future_cancel i w) = frames_of w"
  by (simp_all add: new_future_def future_set_result_def future_set_exception_def
      future_cancel_def Let_def)

lemma frames_ok_sender:
  assumes "frames_ok (frames_of w)"
  shows "frames_ok (frames_of (snd (case create_message opc p 0 w of (m, w1) \<Rightarrow> send_return_seq m w1)))"
  using frames_ok_create [OF assms, of opc p]
  by (simp add: case_prod_beta)

lemma frames_ok_senders:
  assumes "frames_ok (frames_of w)"
  shows "frames_ok (frames_of (snd (send_message c t r cid w)))"
    and "frames_ok (frames_of (snd (send_sticker c st r cid w)))"
    and "frames_ok (frames_of (snd (send_reaction c mi rt ri w)))"
    and "frames_ok (frames_of (snd (edit_message c mi t w)))"
    and "frames_ok (frames_of (snd (delete_message c mi w)))"
    and "frames_ok (frames_of (snd (send_events evs w)))"
    and "frames_ok (frames_of (snd (send_auth_start ph lang w)))"
    and "frames_ok (frames_of (snd (send_auth_code tok code w)))"
    and "frames_ok (frames_of (snd (send_auth_token tok i n w)))"
    and "frames_ok (frames_of (snd (send_get_chats cs w)))"
    and "frames_ok (frames_of (snd (send_get_contacts cs w)))"
  using assms
  by (simp_all add: send_message_def send_sticker_def send_reaction_def edit_message_def
      delete_message_def send_events_def send_auth_start_def send_auth_code_def
      send_auth_token_def send_get_chats_def send_get_contacts_def Let_def frames_ok_sender)

lemma frames_ok_pair:
  assumes "f w = (r, w')" and "frames_ok (frames_of (snd (f w)))"
  shows "frames_ok (frames_of w')"
  using assms by simp

lemma frames_ok_connect:
  assumes "frames_ok (frames_of w)"
  shows "frames_ok (frames_of (snd (connect a b w)))"
proof -
  have 1: "frames_ok (frames_of (snd (ws_connect a b w)))"
    using assms by (simp add: ws_connect_def)
  have 2: "frames_ok (frames_of (snd (initialize v)))" if "frames_ok (frames_of v)" for v
  proof -
    have "frames_ok (frames_of (snd (create_message 6 p 0 (emit e v))))" for p e
      using that by (simp add: frames_ok_create)
    then show ?thesis
      by (simp add: initialize_def Let_def case_prod_beta split: prod.splits res.splits json.splits)
  qed
  show ?thesis
    using 1 2 by (auto simp: connect_def split: prod.splits res.splits) (metis snd_conv)+
qed


lemma frames_ok_authenticate:
  assumes "frames_ok (frames_of w)"
  shows "frames_ok (frames_of (snd (authenticate ph cb t1 t2 w)))"
  using assms
  by (simp add: authenticate_def Let_def case_prod_beta frames_ok_senders
      split: res.splits option.splits)

lemma frames_ok_handlers:
  assumes "frames_ok (frames_of w)"
  shows "frames_ok (frames_of (snd (on_auth_success p w)))"
    and "frames_ok (frames_of (snd (on_auth_code_requested p c w)))"
    and "frames_ok (frames_of (snd (on_auth_code_checked p w)))"
    and "frames_ok (frames_of (snd (on_auth_error p t1 t2 w)))"
    and "frames_ok (frames_of (snd (on_auth_code_error p w)))"
    and "frames_ok (frames_of (snd (reauth_wait_end i w)))"
  using assms
  by (simp_all add: on_auth_success_def on_auth_code_requested_def on_auth_code_checked_def
      on_auth_error_def on_auth_code_error_def reauth_wait_end_def
      Let_def case_prod_beta frames_ok_senders
      split: res.splits option.splits future.splits)

lemma frames_ok_step:
  assumes "frames_ok (frames_of w)"
  shows "frames_ok (frames_of (step a w))"
  using assms
  by (cases a) (simp_all add: frames_ok_senders frames_ok_handlers frames_ok_authenticate
      frames_ok_connect disconnect_def ws_close_def Let_def)

lemma frames_ok_run:
  "frames_ok (frames_of w) \<Longrightarrow> frames_ok (frames_of (run acts w))"
  by (induction acts arbitrary: w) (simp_all add: frames_ok_step)

lemma frames_ok_init: "frames_ok (frames_of (init_world s d wr f))"
  by (simp add: frames_ok_def frames_of_def init_world_def)

lemma demo_run_produced_length:
  "length (produced (run all_defs_demo_run (init_world [] False True None))) = 3"
  by (simp add: all_defs_demo_run_def init_world_def connect_def ws_connect_def initialize_def
      create_message_def frame_def conn_send_def ws_send_def send_return_seq_def send_auth_token_def
      send_events_def emit_def dict_get_def get_user_agent_dict_def Let_def)

text \<open>
  C10. Along every run, every message the client builds carries \<open>cmd = 0\<close>: all
  callers of \<^verbatim>\<open>_create_message\<close> leave the parameter \<open>cmd\<close> at its default.
\<close>

theorem every_frame_cmd_zero:
  "map (frame_field ''cmd'') (produced (run acts (init_world s d wr f))) =
     replicate (length (produced (run acts (init_world s d wr f)))) (JInt 0)"
  using frames_ok_run [OF frames_ok_init, of acts s d wr f]
  by (simp add: frames_ok_def frames_of_def)

theorem every_frame_cmd_zero_witness:
  "map (frame_field ''cmd'') (produced (run all_defs_demo_run (init_world [] False True None))) =
     [JInt 0, JInt 0, JInt 0]"
  using every_frame_cmd_zero [of all_defs_demo_run "[]" False True None]
  by (simp add: demo_run_produced_length numeral_3_eq_3)

section \<open>Effects of the senders and of the session store\<close>

lemma wire_append [simp]: "wire (xs @ ys) = wire xs @ wire ys"
  by (induction xs rule: wire.induct) simp_all

lemma dict_get_set_same: "dict_get (dict_set d k v) k dflt = v"
  by (induction d) (auto simp: dict_get_def)

lemma dict_get_set_other: "k' \<noteq> k \<Longrightarrow> dict_get (dict_set d k v) k' dflt = dict_get d k' dflt"
  by (induction d) (auto simp: dict_get_def)

lemma send_return_seq_usable:
  assumes "usable w"
  shows "send_return_seq m w =
     (Ret (conn_seq w), w\<lparr>trace := trace w @ debug_line w m @ [WsSend (json_dumps m)]\<rparr>)"
  using assms
  by (simp add: usable_def send_return_seq_def conn_send_def ws_send_def emit_def debug_line_def Let_def)

lemma send_return_seq_unusable:
  assumes "\<not> usable w"
  shows "\<exists>e w'. send_return_seq m w = (Raise e, w') \<and> wire (trace w') = wire (trace w)
     \<and> futures w' = futures w \<and> auth_future w' = auth_future w \<and> sess_data w' = sess_data w"
  using assms
  by (auto simp: usable_def send_return_seq_def conn_send_def ws_send_def emit_def Let_def wire_append)

lemma create_send_usable:
  assumes "usable w"
  shows "(case create_message opcode payload 0 w of (m, w1) \<Rightarrow> send_return_seq m w1) =
     (Ret (conn_seq w + 1), sent opcode payload w)"
  using assms
  by (simp add: create_message_def Let_def send_return_seq_usable usable_def sent_def ver_of_def debug_line_def)

lemma usable_sent [simp]: "usable (sent opcode payload w) = usable w"
  by (simp add: usable_def sent_def Let_def)

lemma usable_emit [simp]: "usable (emit e w) = usable w"
  by (simp add: usable_def emit_def)

lemma senders_usable:
  assumes "usable w"
  shows "send_auth_token token i n w = (Ret (conn_seq w + 1), sent 19
           (JDict [(''interactive'', JBool i), (''token'', token),
                   (''chatsCount'', JInt n), (''chatsSync'', JInt 0),
                   (''contactsSync'', JInt 0), (''presenceSync'', JInt 0),
                   (''draftsSync'', JInt 0)]) w)"
    and "send_auth_start p lang w = (Ret (conn_seq w + 1), sent 17
           (JDict [(''phone'', JStr p), (''type'', JStr ''START_AUTH''), (''language'', JStr lang)]) w)"
    and "send_events evs w = (Ret (conn_seq w + 1), sent 5 (JDict [(''events'', JList evs)]) w)"
  using assms
  by (simp_all add: send_auth_token_def send_auth_start_def send_events_def Let_def create_send_usable)


lemma emit_fields [simp]:
  "futures (emit e w) = futures w" "auth_future (emit e w) = auth_future w"
  "sess_data (emit e w) = sess_data w" "disk_writable (emit e w) = disk_writable w"
  "disk_file (emit e w) = disk_file w" "auth_phone (emit e w) = auth_phone w"
  "auth_code_callback (emit e w) = auth_code_callback w" "conn_seq (emit e w) = conn_seq w"
  "conn_debug (emit e w) = conn_debug w" "conn_session_data (emit e w) = conn_session_data w"
  "produced (emit e w) = produced w" "trace (emit e w) = trace w @ [e]"
  by (simp_all add: emit_def)

lemma sent_fields [simp]:
  "futures (sent opc pl w) = futures w" "auth_future (sent opc pl w) = auth_future w"
  "sess_data (sent opc pl w) = sess_data w" "disk_writable (sent opc pl w) = disk_writable w"
  "disk_file (sent opc pl w) = disk_file w" "auth_phone (sent opc pl w) = auth_phone w"
  "auth_code_callback (sent opc pl w) = auth_code_callback w"
  "conn_seq (sent opc pl w) = conn_seq w + 1"
  "conn_debug (sent opc pl w) = conn_debug w"
  "conn_session_data (sent opc pl w) = conn_session_data w"
  "trace (sent opc pl w) = trace w @ debug_line w (frame (ver_of w) 0 (conn_seq w + 1) opc pl)
      @ [WsSend (json_dumps (frame (ver_of w) 0 (conn_seq w + 1) opc pl))]"
  by (simp_all add: sent_def Let_def)

lemma env_emit [simp]:
  "ver_of (emit e w) = ver_of w" "debug_line (emit e w) = debug_line w"
  "session_get k (emit e w) = session_get k w"
  by (simp_all add: ver_of_def debug_line_def session_get_def fun_eq_iff)

lemma session_fields [simp]:
  "futures (session_set k v w) = futures w" "auth_future (session_set k v w) = auth_future w"
  "futures (session_save w) = futures w" "auth_future (session_save w) = auth_future w"
  "auth_phone (session_set k v w) = auth_phone w" "auth_phone (session_save w) = auth_phone w"
  "sess_data (session_set k v w) = dict_set (sess_data w) k v"
  "sess_data (session_save w) = sess_data w"
  "disk_writable (session_set k v w) = disk_writable w"
  "disk_writable (session_save w) = disk_writable w"
  "disk_file (session_set k v w) = disk_file w"
  "disk_file (session_save w) = (if disk_writable w then Some (sess_data w) else disk_file w)"
  "trace (session_set k v w) = trace w @ [SessionSet k v]"
  "trace (session_save w) = trace w @ [save_event w (sess_data w)]"
  "usable (session_set k v w) = usable w" "usable (session_save w) = usable w"
  "ver_of (session_set k v w) = ver_of w" "ver_of (session_save w) = ver_of w"
  "debug_line (session_set k v w) = debug_line w" "debug_line (session_save w) = debug_line w"
  "conn_seq (session_set k v w) = conn_seq w" "conn_seq (session_save w) = conn_seq w"
  "produced (session_set k v w) = produced w" "produced (session_save w) = produced w"
  by (simp_all add: session_set_def session_save_def emit_def save_event_def usable_def
      ver_of_def debug_line_def fun_eq_iff)

lemma pending_handle_cong [simp]:
  "pending_handle (emit e w) = pending_handle w"
  "pending_handle (session_set k v w) = pending_handle w"
  "pending_handle (session_save w) = pending_handle w"
  "pending_handle (sent opc pl w) = pending_handle w"
  by (simp_all add: pending_handle_def split: option.splits)

lemma pending_handle_fresh:
  "pending_handle (w\<lparr>futures := fs @ [Pending], auth_future := Some (length fs)\<rparr>) = Some (length fs)"
  by (simp add: pending_handle_def)

lemma update_fields [simp]:
  "usable (w\<lparr>auth_phone := ph\<rparr>) = usable w"
  "usable (w\<lparr>auth_code_callback := cb\<rparr>) = usable w"
  "usable (w\<lparr>auth_future := af\<rparr>) = usable w"
  "usable (w\<lparr>futures := fs\<rparr>) = usable w"
  "ver_of (w\<lparr>auth_phone := ph\<rparr>) = ver_of w"
  "ver_of (w\<lparr>auth_code_callback := cb\<rparr>) = ver_of w"
  "debug_line (w\<lparr>auth_phone := ph\<rparr>) = debug_line w"
  "debug_line (w\<lparr>auth_code_callback := cb\<rparr>) = debug_line w"
  "ver_of (sent opc pl w) = ver_of w"
  "debug_line (sent opc pl w) = debug_line w"
  "ver_of (w\<lparr>auth_future := af\<rparr>) = ver_of w"
  "ver_of (w\<lparr>futures := fs\<rparr>) = ver_of w"
  "debug_line (w\<lparr>auth_future := af\<rparr>) = debug_line w"
  "debug_line (w\<lparr>futures := fs\<rparr>) = debug_line w"
  by (simp_all add: usable_def ver_of_def debug_line_def sent_def Let_def fun_eq_iff)

lemma create_send_unusable:
  assumes "\<not> usable w"
  shows "\<exists>e w'. (case create_message opcode payload 0 w of (m, w1) \<Rightarrow> send_return_seq m w1)
           = (Raise e, w')
     \<and> trace w' = trace w @ debug_line w (frame (ver_of w) 0 (conn_seq w + 1) opcode payload)
     \<and> futures w' = futures w \<and> auth_future w' = auth_future w \<and> sess_data w' = sess_data w
     \<and> disk_file w' = disk_file w"
  using assms
  by (auto simp: usable_def create_message_def send_return_seq_def conn_send_def ws_send_def
      emit_def Let_def debug_line_def ver_of_def)

lemma wire_debug_line [simp]: "wire (debug_line w m) = []"
  by (simp add: debug_line_def)

lemma wire_save_event [simp]: "wire (save_event w d # es) = wire es"
  by (simp add: save_event_def)

lemma send_auth_start_unusable:
  assumes "\<not> usable w"
  shows "\<exists>e w'. send_auth_start p lang w = (Raise e, w')
     \<and> trace w' = trace w @ debug_line w (frame (ver_of w) 0 (conn_seq w + 1) 17
        (JDict [(''phone'', JStr p), (''type'', JStr ''START_AUTH''), (''language'', JStr lang)]))
     \<and> futures w' = futures w \<and> auth_future w' = auth_future w \<and> sess_data w' = sess_data w
     \<and> disk_file w' = disk_file w"
  using create_send_unusable [OF assms]
  by (simp add: send_auth_start_def Let_def)

lemma rest_of_emit [simp]: "rest_of (emit e w) = rest_of w"
  by (simp add: rest_of_def)

lemma rest_of_create_send [simp]:
  "rest_of (snd (case create_message opc pl 0 w of (m, w1) \<Rightarrow> send_return_seq m w1)) = rest_of w"
  by (simp add: rest_of_def create_message_def send_return_seq_def conn_send_def ws_send_def
      emit_def Let_def split: res.splits prod.splits)

lemma rest_of_senders [simp]:
  "rest_of (snd (send_events evs w)) = rest_of w"
  "rest_of (snd (send_auth_start ph lang w)) = rest_of w"
  "rest_of (snd (send_auth_code tok code w)) = rest_of w"
  "rest_of (snd (send_auth_token tok i n w)) = rest_of w"
  by (simp_all add: send_events_def send_auth_start_def send_auth_code_def send_auth_token_def Let_def)

lemma rest_of_fields:
  assumes "rest_of w' = rest_of w"
  shows "sess_data w' = sess_data w" "disk_writable w' = disk_writable w"
    "disk_file w' = disk_file w" "auth_future w' = auth_future w"
    "auth_code_callback w' = auth_code_callback w" "auth_phone w' = auth_phone w"
    "futures w' = futures w" "pending_handle w' = pending_handle w"
    "session_get k w' = session_get k w"
  using assms by (simp_all add: rest_of_def pending_handle_def session_get_def split: option.splits)

lemmas sender_fields [simp] =
  rest_of_fields [OF rest_of_senders(1)] rest_of_fields [OF rest_of_senders(2)]
  rest_of_fields [OF rest_of_senders(3)] rest_of_fields [OF rest_of_senders(4)]

lemma more_update_fields [simp]:
  "pending_handle (w\<lparr>auth_phone := ph\<rparr>) = pending_handle w"
  "pending_handle (w\<lparr>auth_code_callback := cb\<rparr>) = pending_handle w"
  "session_get k (w\<lparr>auth_phone := ph\<rparr>) = session_get k w"
  "session_get k (w\<lparr>auth_code_callback := cb\<rparr>) = session_get k w"
  "session_get k (w\<lparr>auth_future := af\<rparr>) = session_get k w"
  "session_get k (w\<lparr>futures := fs\<rparr>) = session_get k w"
  "session_get k (sent opc pl w) = session_get k w"
  "session_get k (session_set k v w) = v"
  "session_get k (session_save w) = session_get k w"
  by (simp_all add: pending_handle_def session_get_def dict_get_set_same split: option.splits)

lemma future_op_fields [simp]:
  "sess_data (future_set_result i v w) = sess_data w"
  "sess_data (future_set_exception i e w) = sess_data w"
  "sess_data (future_cancel i w) = sess_data w"
  "disk_file (future_set_result i v w) = disk_file w"
  "disk_file (future_set_exception i e w) = disk_file w"
  "disk_file (future_cancel i w) = disk_file w"
  "auth_future (future_set_result i v w) = auth_future w"
  "auth_future (future_set_exception i e w) = auth_future w"
  "auth_future (future_cancel i w) = auth_future w"
  "futures (future_set_result i v w) = (futures w)[i := Resolved v]"
  "futures (future_set_exception i e w) = (futures w)[i := Failed e]"
  "futures (future_cancel i w) = (futures w)[i := Cancelled]"
  "trace (future_set_result i v w) = trace w @ [FutureSetResult i v]"
  "trace (future_set_exception i e w) = trace w @ [FutureSetException i e]"
  "trace (future_cancel i w) = trace w @ [FutureCancel i]"
  by (simp_all add: future_set_result_def future_set_exception_def future_cancel_def)

lemma login_token_of_nested:
  "login_token_of (JDict [(''tokenAttrs'', JDict [(''LOGIN'', JDict [(''token'', T)])])]) = Ret T"
  by (simp add: login_token_of_def py_get_def dict_get_def)

section \<open>The paths on a usable socket, and the example worlds\<close>

lemma frame_field_frame [simp]:
  "frame_field ''ver'' (frame v c s opc pl) = v"
  "frame_field ''cmd'' (frame v c s opc pl) = JInt c"
  "frame_field ''seq'' (frame v c s opc pl) = JInt s"
  "frame_field ''opcode'' (frame v c s opc pl) = JInt opc"
  "frame_field ''payload'' (frame v c s opc pl) = pl"
  by (simp_all add: frame_field_def frame_def dict_get_def)

lemma sent_produced [simp]:
  "produced (sent opc pl w) = produced w @ [frame (ver_of w) 0 (conn_seq w + 1) opc pl]"
  by (simp add: sent_def Let_def)

lemma authenticate_token_usable:
  assumes "truthy (session_get ''token'' w)" and "usable w"
  shows "authenticate phone cb t1 t2 w =
     (Awaiting (length (futures w)),
      (emit (FutureCreated (length (futures w)))
         ((emit (Print TOKEN_SENT [])
            (sent 19 (JDict [(''interactive'', JBool False), (''token'', session_get ''token'' w),
                 (''chatsCount'', JInt 40), (''chatsSync'', JInt 0), (''contactsSync'', JInt 0),
                 (''presenceSync'', JInt 0), (''draftsSync'', JInt 0)])
              (emit (Sleep AUTH_DELAY_ms) (emit (Print FOUND_TOKEN []) w))))
          \<lparr>futures := futures w @ [Pending]\<rparr>))\<lparr>auth_future := Some (length (futures w))\<rparr>)"
  using assms
  by (simp add: authenticate_def Let_def senders_usable DEFAULT_CHATS_COUNT_def new_future_def)

lemma authenticate_phone_usable:
  assumes "\<not> truthy (session_get ''token'' w)" and "p \<noteq> []" and "usable w"
  shows "authenticate (Some p) cb t1 t2 w =
     (Awaiting (length (futures w)),
      (emit (FutureCreated (length (futures w)))
         ((emit (Print NAVIGATION_EVENTS_SENT [])
            (sent 5 (JDict [(''events'', JList (navigation_events t1 t2))])
              (emit (Print PHONE_SENT [])
                (sent 17 (JDict [(''phone'', JStr p), (''type'', JStr ''START_AUTH''),
                                 (''language'', JStr ''ru'')])
                  ((session_save (session_set ''phone'' (JStr p)
                      ((emit (Print PHONE_SENDING [JStr p]) w)\<lparr>auth_phone := Some p\<rparr>)))
                   \<lparr>auth_code_callback := cb\<rparr>)))))
          \<lparr>futures := futures w @ [Pending]\<rparr>))\<lparr>auth_future := Some (length (futures w))\<rparr>)"
  using assms
  by (simp add: authenticate_def Let_def senders_usable new_future_def)

lemma on_auth_error_reauth_usable:
  assumes "token_invalid (dict_get d ''error'' JNull) (dict_get d ''message'' JNull)"
    and "auth_phone w = Some p" and "p \<noteq> []" and "usable w"
  shows "on_auth_error (JDict d) t1 t2 w =
     (AwaitingFor (length (futures w)) AUTH_TIMEOUT_ms,
      (emit (FutureCreated (length (futures w)))
         ((sent 5 (JDict [(''events'', JList (navigation_events t1 t2))])
            (sent 17 (JDict [(''phone'', JStr p), (''type'', JStr ''START_AUTH''),
                             (''language'', JStr ''ru'')])
              (emit (Print REQUESTING_REAUTH [])
                (session_save (session_set ''token'' JNull
                   (emit (Print TOKEN_INVALID [])
                      (emit (Print AUTH_ERROR [dict_get d ''message'' JNull]) w)))))))
          \<lparr>futures := futures w @ [Pending]\<rparr>))\<lparr>auth_future := Some (length (futures w))\<rparr>)"
  using assms
  by (simp add: on_auth_error_def py_get_def Let_def senders_usable new_future_def)

lemma connected_world_facts [simp]:
  "usable (connected_world s)" "conn_seq (connected_world s) = 1"
  "futures (connected_world s) = []" "auth_future (connected_world s) = None"
  "sess_data (connected_world s) = s" "conn_session_data (connected_world s) = s"
  "disk_writable (connected_world s)" "disk_file (connected_world s) = None"
  "auth_phone (connected_world s) = None" "\<not> conn_debug (connected_world s)"
  "produced (connected_world s) = [frame (dict_get s ''version'' (JInt 11)) 0 1 6
     (JDict [(''userAgent'', get_user_agent_dict (init_world s False True None)),
             (''deviceId'', dict_get s ''device_id'' (JStr []))])]"
  by (simp_all add: connected_world_def connect_def ws_connect_def initialize_def init_world_def
      create_message_def conn_send_def ws_send_def emit_def usable_def Let_def
      get_user_agent_dict_def split: json.splits)

lemma connected_world_env [simp]:
  "ver_of (connected_world s) = dict_get s ''version'' (JInt 11)"
  "debug_line (connected_world s) m = []"
  "session_get k (connected_world s) = dict_get s k JNull"
  "pending_handle (connected_world s) = None"
  by (simp_all add: ver_of_def debug_line_def session_get_def pending_handle_def)

lemma token_waiting_facts [simp]:
  "usable token_waiting" "conn_seq token_waiting = 2"
  "futures token_waiting = [Pending]" "auth_future token_waiting = Some 0"
  "sess_data token_waiting = [(''token'', JStr ''T'')]"
  "disk_writable token_waiting" "disk_file token_waiting = None"
  "auth_phone token_waiting = None" "pending_handle token_waiting = Some 0"
  by (simp_all add: token_waiting_def authenticate_token_usable dict_get_def
      pending_handle_def)

lemma phone_waiting_facts [simp]:
  "usable phone_waiting" "conn_seq phone_waiting = 3"
  "futures phone_waiting = [Pending]" "auth_future phone_waiting = Some 0"
  "sess_data phone_waiting = [(''phone'', JStr ''+79001234567'')]"
  "disk_writable phone_waiting"
  "disk_file phone_waiting = Some [(''phone'', JStr ''+79001234567'')]"
  "auth_phone phone_waiting = Some ''+79001234567''" "pending_handle phone_waiting = Some 0"
  "ver_of phone_waiting = JInt 11" "debug_line phone_waiting m = []"
  by (simp_all add: phone_waiting_def authenticate_phone_usable dict_get_def
      pending_handle_def)

section \<open>The authentication paths\<close>

text \<open>
  C2. Token fast-path. With a cached token (a value of the session store under
  \<open>token\<close> that Python takes as true) and a usable socket, \<^verbatim>\<open>authenticate\<close> writes
  exactly one string to the socket, the token-auth message (cmd 0, opcode 19,
  \<open>interactive\<close> false, the cached token), then creates a fresh pending future, puts
  it into the slot and suspends on it. An \<open>auth_success\<close> event handled next resolves
  that future with the event's payload, and \<^verbatim>\<open>authenticate\<close> returns.
\<close>

theorem token_fast_path:
  fixes w :: world and phone :: "string option" and cb :: bool and t1 t2 :: int
    and p :: dict
  assumes tok: "truthy (session_get ''token'' w)" and us: "usable w"
  defines "m \<equiv> frame (ver_of w) 0 (conn_seq w + 1) 19
      (JDict [(''interactive'', JBool False), (''token'', session_get ''token'' w),
              (''chatsCount'', JInt 40), (''chatsSync'', JInt 0), (''contactsSync'', JInt 0),
              (''presenceSync'', JInt 0), (''draftsSync'', JInt 0)])"
  defines "fid \<equiv> length (futures w)"
  defines "w' \<equiv> snd (authenticate phone cb t1 t2 w)"
  shows "fst (authenticate phone cb t1 t2 w) = Awaiting fid
    \<and> trace w' = trace w @ [Print FOUND_TOKEN [], Sleep AUTH_DELAY_ms] @ debug_line w m
         @ [WsSend (json_dumps m), Print TOKEN_SENT [], FutureCreated fid]
    \<and> wire (trace w') = wire (trace w) @ [json_dumps m]
    \<and> futures w' = futures w @ [Pending]
    \<and> auth_future w' = Some fid
    \<and> fst (on_auth_success (JDict p) w') = Returned
    \<and> futures (snd (on_auth_success (JDict p) w')) = futures w @ [Resolved (JDict p)]
    \<and> authenticate_resume fid (snd (on_auth_success (JDict p) w')) = Returned"
proof -
  let ?payload = "JDict [(''interactive'', JBool False), (''token'', session_get ''token'' w),
              (''chatsCount'', JInt 40), (''chatsSync'', JInt 0), (''contactsSync'', JInt 0),
              (''presenceSync'', JInt 0), (''draftsSync'', JInt 0)]"
  let ?w2 = "emit (Sleep AUTH_DELAY_ms) (emit (Print FOUND_TOKEN []) w)"
  have u2: "usable ?w2" using us by simp
  have a: "authenticate phone cb t1 t2 w =
      (Awaiting fid,
       (emit (FutureCreated fid) ((emit (Print TOKEN_SENT []) (sent 19 ?payload ?w2))
          \<lparr>futures := futures w @ [Pending]\<rparr>))\<lparr>auth_future := Some fid\<rparr>)"
    using tok
    by (simp add: authenticate_def Let_def senders_usable(1) [OF u2] DEFAULT_CHATS_COUNT_def
        new_future_def fid_def)
  have tr: "trace w' = trace w @ [Print FOUND_TOKEN [], Sleep AUTH_DELAY_ms] @ debug_line w m
         @ [WsSend (json_dumps m), Print TOKEN_SENT [], FutureCreated fid]"
    by (simp add: w'_def a m_def)
  have wi: "wire (trace w') = wire (trace w) @ [json_dumps m]"
    by (simp add: tr wire_append debug_line_def)
  have fu: "futures w' = futures w @ [Pending]" "auth_future w' = Some fid"
    by (simp_all add: w'_def a)
  have ph: "pending_handle w' = Some fid"
    by (simp add: pending_handle_def fu fid_def)
  have sess: "sess_data w' = sess_data w" "disk_writable w' = disk_writable w"
    by (simp_all add: w'_def a)
  have os: "fst (on_auth_success (JDict p) w') = Returned
      \<and> futures (snd (on_auth_success (JDict p) w')) = futures w @ [Resolved (JDict p)]"
    by (simp add: on_auth_success_def py_get_def Let_def ph future_set_result_def
        fu fid_def)
  then have "authenticate_resume fid (snd (on_auth_success (JDict p) w')) = Returned"
    by (simp add: authenticate_resume_def fid_def)
  with a tr wi fu os show ?thesis by simp
qed

theorem token_fast_path_witness:
  "fst (authenticate None False 0 0 (connected_world [(''token'', JStr ''T'')])) = Awaiting 0
   \<and> wire (trace (snd (authenticate None False 0 0 (connected_world [(''token'', JStr ''T'')])))) =
       wire (trace (connected_world [(''token'', JStr ''T'')])) @
       [json_dumps (frame (JInt 11) 0 2 19
          (JDict [(''interactive'', JBool False), (''token'', JStr ''T''),
                  (''chatsCount'', JInt 40), (''chatsSync'', JInt 0), (''contactsSync'', JInt 0),
                  (''presenceSync'', JInt 0), (''draftsSync'', JInt 0)]))]
   \<and> futures (snd (on_auth_success (JDict [(''token'', JStr ''U'')])
        (snd (authenticate None False 0 0 (connected_world [(''token'', JStr ''T'')]))))) =
       [Resolved (JDict [(''token'', JStr ''U'')])]"
  using token_fast_path [of "connected_world [(''token'', JStr ''T'')]" None False 0 0
      "[(''token'', JStr ''U'')]"]
  by (simp add: dict_get_def)

text \<open>
  C3. Phone path. With no cached token and a phone number, \<^verbatim>\<open>authenticate\<close> first
  puts the phone into the session store and calls \<^verbatim>\<open>save\<close> (which writes the file, or
  prints the error when the file cannot be written); only what follows can write to
  the socket: on a usable socket the start-auth message (opcode 17) and then the
  events message, on an unusable one nothing.
\<close>

theorem phone_persisted_before_start_auth:
  fixes w :: world and p :: string and cb :: bool and t1 t2 :: int
  assumes tok: "\<not> truthy (session_get ''token'' w)" and ph: "p \<noteq> []"
  defines "d' \<equiv> dict_set (sess_data w) ''phone'' (JStr p)"
  defines "w' \<equiv> snd (authenticate (Some p) cb t1 t2 w)"
  defines "start \<equiv> frame (ver_of w) 0 (conn_seq w + 1) 17
      (JDict [(''phone'', JStr p), (''type'', JStr ''START_AUTH''), (''language'', JStr ''ru'')])"
  defines "nav \<equiv> frame (ver_of w) 0 (conn_seq w + 2) 5
      (JDict [(''events'', JList (navigation_events t1 t2))])"
  shows "(\<exists>rest. trace w' = trace w @
            [Print PHONE_SENDING [JStr p], SessionSet ''phone'' (JStr p), save_event w d'] @ rest
          \<and> wire rest = (if usable w then [json_dumps start, json_dumps nav] else []))
    \<and> sess_data w' = d'
    \<and> dict_get d' ''phone'' JNull = JStr p
    \<and> disk_file w' = (if disk_writable w then Some d' else disk_file w)"
proof -
  let ?w5 = "(session_save (session_set ''phone'' (JStr p)
      ((emit (Print PHONE_SENDING [JStr p]) w)\<lparr>auth_phone := Some p\<rparr>)))\<lparr>auth_code_callback := cb\<rparr>"
  have t5: "trace ?w5 = trace w @
      [Print PHONE_SENDING [JStr p], SessionSet ''phone'' (JStr p), save_event w d']"
    by (simp add: d'_def save_event_def)
  have s5: "sess_data ?w5 = d'" "disk_file ?w5 = (if disk_writable w then Some d' else disk_file w)"
    by (simp_all add: d'_def)
  have g: "dict_get d' ''phone'' JNull = JStr p"
    by (simp add: d'_def dict_get_set_same)
  show ?thesis
  proof (cases "usable w")
    case True
    then have u: "usable ?w5" by simp
    have "trace w' = trace w @
        [Print PHONE_SENDING [JStr p], SessionSet ''phone'' (JStr p), save_event w d'] @
        (debug_line w start @ [WsSend (json_dumps start), Print PHONE_SENT []] @
         debug_line w nav @ [WsSend (json_dumps nav), Print NAVIGATION_EVENTS_SENT [],
           FutureCreated (length (futures w))])"
      using tok ph True
      by (simp add: w'_def authenticate_def senders_usable Let_def new_future_def
          start_def nav_def d'_def save_event_def add.commute)
    moreover have "wire (debug_line w start @ [WsSend (json_dumps start), Print PHONE_SENT []] @
         debug_line w nav @ [WsSend (json_dumps nav), Print NAVIGATION_EVENTS_SENT [],
           FutureCreated (length (futures w))]) = [json_dumps start, json_dumps nav]"
      by (simp add: wire_append)
    moreover have "sess_data w' = d'" "disk_file w' = (if disk_writable w then Some d' else disk_file w)"
      using tok ph True
      by (simp_all add: w'_def authenticate_def senders_usable Let_def
          new_future_def d'_def)
    ultimately show ?thesis using True g by auto
  next
    case False
    then have "\<not> usable ?w5" by simp
    from send_auth_start_unusable [OF this, of p "''ru''"]
    obtain e w6 where r: "send_auth_start p ''ru'' ?w5 = (Raise e, w6)"
      and t6: "trace w6 = trace ?w5 @ debug_line ?w5 (frame (ver_of ?w5) 0 (conn_seq ?w5 + 1) 17
        (JDict [(''phone'', JStr p), (''type'', JStr ''START_AUTH''), (''language'', JStr ''ru'')]))"
      and f6: "sess_data w6 = sess_data ?w5" "disk_file w6 = disk_file ?w5"
      by blast
    have w6: "w' = w6" using tok ph by (simp add: w'_def authenticate_def Let_def r)
    have "trace w' = trace w @
        [Print PHONE_SENDING [JStr p], SessionSet ''phone'' (JStr p), save_event w d'] @
        debug_line ?w5 (frame (ver_of ?w5) 0 (conn_seq ?w5 + 1) 17
        (JDict [(''phone'', JStr p), (''type'', JStr ''START_AUTH''), (''language'', JStr ''ru'')]))"
      unfolding w6 t6 t5 by simp
    moreover have "sess_data w' = d'" "disk_file w' = (if disk_writable w then Some d' else disk_file w)"
      unfolding w6 f6 s5 by simp_all
    ultimately show ?thesis using False g wire_debug_line by metis
  qed
qed

theorem phone_persisted_before_start_auth_witness:
  "(\<exists>rest. trace (snd (authenticate (Some ''+79001234567'') True 7 8 (connected_world []))) =
       trace (connected_world []) @
       [Print PHONE_SENDING [JStr ''+79001234567''], SessionSet ''phone'' (JStr ''+79001234567''),
        FileWrite [(''phone'', JStr ''+79001234567'')]] @ rest
     \<and> wire rest =
       [json_dumps (frame (JInt 11) 0 2 17
          (JDict [(''phone'', JStr ''+79001234567''), (''type'', JStr ''START_AUTH''),
                  (''language'', JStr ''ru'')])),
        json_dumps (frame (JInt 11) 0 3 5 (JDict [(''events'', JList (navigation_events 7 8))]))])
   \<and> disk_file (snd (authenticate (Some ''+79001234567'') True 7 8 (connected_world []))) =
       Some [(''phone'', JStr ''+79001234567'')]"
  using phone_persisted_before_start_auth [of "connected_world []" "''+79001234567''" True 7 8]
  by (simp add: dict_get_def save_event_def)

text \<open>
  C4, as the code has it. In the phone flow, at the first authentication and at the
  re-authentication after a rejected token alike, the start-auth message is followed
  by one events message (opcode 5) whose payload holds the two navigation events
  \<open>COLD_START\<close> and \<open>GO\<close>: two strings are written to the socket per cycle.
\<close>

theorem phone_flow_frames:
  fixes w :: world and p :: string and cb :: bool and t1 t2 :: int and d :: dict
  assumes us: "usable w" and ph: "p \<noteq> []"
  defines "start \<equiv> frame (ver_of w) 0 (conn_seq w + 1) 17
      (JDict [(''phone'', JStr p), (''type'', JStr ''START_AUTH''), (''language'', JStr ''ru'')])"
  defines "nav \<equiv> frame (ver_of w) 0 (conn_seq w + 2) 5
      (JDict [(''events'', JList
         [JDict [(''type'', JStr ''COLD_START''), (''time'', JInt t1)],
          JDict [(''type'', JStr ''GO''), (''page'', JInt 1), (''time'', JInt t2)]])])"
  shows "(\<not> truthy (session_get ''token'' w) \<longrightarrow>
            fst (authenticate (Some p) cb t1 t2 w) = Awaiting (length (futures w))
          \<and> wire (trace (snd (authenticate (Some p) cb t1 t2 w))) =
              wire (trace w) @ [json_dumps start, json_dumps nav])
    \<and> (token_invalid (dict_get d ''error'' JNull) (dict_get d ''message'' JNull)
          \<and> auth_phone w = Some p \<longrightarrow>
            fst (on_auth_error (JDict d) t1 t2 w) = AwaitingFor (length (futures w)) AUTH_TIMEOUT_ms
          \<and> wire (trace (snd (on_auth_error (JDict d) t1 t2 w))) =
              wire (trace w) @ [json_dumps start, json_dumps nav])"
  using us ph
  by (simp add: authenticate_def on_auth_error_def py_get_def Let_def senders_usable new_future_def
      start_def nav_def navigation_events_def wire_append save_event_def add.commute)

theorem phone_flow_frames_witness:
  "fst (authenticate (Some ''+79001234567'') True 1 2 phone_waiting) = Awaiting 1
   \<and> wire (trace (snd (authenticate (Some ''+79001234567'') True 1 2 phone_waiting))) =
       wire (trace phone_waiting) @
       [json_dumps (frame (JInt 11) 0 4 17
          (JDict [(''phone'', JStr ''+79001234567''), (''type'', JStr ''START_AUTH''),
                  (''language'', JStr ''ru'')])),
        json_dumps (frame (JInt 11) 0 5 5 (JDict [(''events'', JList
          [JDict [(''type'', JStr ''COLD_START''), (''time'', JInt 1)],
           JDict [(''type'', JStr ''GO''), (''page'', JInt 1), (''time'', JInt 2)]])]))]
   \<and> fst (on_auth_error (JDict [(''error'', JStr ''login.token'')]) 1 2 phone_waiting) =
       AwaitingFor 1 AUTH_TIMEOUT_ms
   \<and> wire (trace (snd (on_auth_error (JDict [(''error'', JStr ''login.token'')]) 1 2 phone_waiting))) =
       wire (trace phone_waiting) @
       [json_dumps (frame (JInt 11) 0 4 17
          (JDict [(''phone'', JStr ''+79001234567''), (''type'', JStr ''START_AUTH''),
                  (''language'', JStr ''ru'')])),
        json_dumps (frame (JInt 11) 0 5 5 (JDict [(''events'', JList
          [JDict [(''type'', JStr ''COLD_START''), (''time'', JInt 1)],
           JDict [(''type'', JStr ''GO''), (''page'', JInt 1), (''time'', JInt 2)]])]))]"
  using phone_flow_frames [of phone_waiting "''+79001234567''" True 1 2
      "[(''error'', JStr ''login.token'')]"]
  by (simp add: dict_get_def session_get_def token_invalid_def)

text \<open>
  The claim C4 as stated asks for two telemetry frames after the start-auth frame,
  three frames per cycle. A client that has just connected and authenticates by phone
  writes two strings to the socket, and builds one message with opcode 5.
\<close>

theorem phone_flow_three_frames_counterexample:
  "wire (trace (snd (authenticate (Some ''+79001234567'') True 7 8 (connected_world [])))) =
       wire (trace (connected_world [])) @
       [json_dumps (frame (JInt 11) 0 2 17
          (JDict [(''phone'', JStr ''+79001234567''), (''type'', JStr ''START_AUTH''),
                  (''language'', JStr ''ru'')])),
        json_dumps (frame (JInt 11) 0 3 5 (JDict [(''events'', JList (navigation_events 7 8))]))]
   \<and> length (filter (\<lambda>m. frame_field ''opcode'' m = JInt 5)
         (produced (snd (authenticate (Some ''+79001234567'') True 7 8 (connected_world []))))) = 1"
  by (simp add: authenticate_phone_usable dict_get_def save_event_def)

text \<open>
  C5. The reaction to \<open>auth_error\<close>. When the error is \<open>login.token\<close> or the message
  is \<open>FAIL_LOGIN_TOKEN\<close>, the token of the session store is set to \<^verbatim>\<open>None\<close> and the
  store is saved; when moreover no phone is known, the pending future of the slot
  fails with \<^verbatim>\<open>AuthError("Phone number not found")\<close>. For any other error the pending
  future of the slot fails with \<^verbatim>\<open>AuthError(f"Auth error: {message}")\<close> and the store
  is left alone. Without a pending future in the slot nothing fails.
\<close>

theorem auth_error_reaction:
  fixes w :: world and d :: dict and t1 t2 :: int
  defines "error \<equiv> dict_get d ''error'' JNull"
  defines "message \<equiv> dict_get d ''message'' JNull"
  defines "r \<equiv> on_auth_error (JDict d) t1 t2 w"
  defines "cleared \<equiv> dict_set (sess_data w) ''token'' JNull"
  shows "(token_invalid error message \<longrightarrow>
            sess_data (snd r) = cleared \<and> session_get ''token'' (snd r) = JNull
          \<and> disk_file (snd r) = (if disk_writable w then Some cleared else disk_file w))
    \<and> (token_invalid error message \<and> (auth_phone w = None \<or> auth_phone w = Some []) \<longrightarrow>
            fst r = Returned
          \<and> futures (snd r) = (case pending_handle w of
               Some fid \<Rightarrow> (futures w)[fid := Failed (AuthError (Lit ''Phone number not found''))]
             | None \<Rightarrow> futures w))
    \<and> (\<not> token_invalid error message \<longrightarrow>
            fst r = Returned
          \<and> futures (snd r) = (case pending_handle w of
               Some fid \<Rightarrow> (futures w)[fid := Failed (AuthError (Fmt ''Auth error: '' message))]
             | None \<Rightarrow> futures w)
          \<and> sess_data (snd r) = sess_data w)"
  by (simp add: r_def error_def message_def cleared_def on_auth_error_def py_get_def Let_def
      case_prod_beta new_future_def session_get_def dict_get_set_same
      split: option.splits res.splits)

theorem auth_error_reaction_witness:
  "session_get ''token'' (snd (on_auth_error (JDict [(''error'', JStr ''login.token'')]) 0 0 token_waiting)) = JNull
   \<and> disk_file (snd (on_auth_error (JDict [(''error'', JStr ''login.token'')]) 0 0 token_waiting)) =
       Some [(''token'', JNull)]
   \<and> futures (snd (on_auth_error (JDict [(''error'', JStr ''login.token'')]) 0 0 token_waiting)) =
       [Failed (AuthError (Lit ''Phone number not found''))]
   \<and> futures (snd (on_auth_error (JDict [(''message'', JStr ''boom'')]) 0 0 token_waiting)) =
       [Failed (AuthError (Fmt ''Auth error: '' (JStr ''boom'')))]"
  using auth_error_reaction [of "[(''error'', JStr ''login.token'')]" 0 0 token_waiting]
    auth_error_reaction [of "[(''message'', JStr ''boom'')]" 0 0 token_waiting]
  by (simp add: dict_get_def token_invalid_def)

text \<open>
  C6. The reaction to \<open>auth_code_checked\<close>. When the lookup
  \<open>tokenAttrs.LOGIN.token\<close> gives a value \<open>T\<close> that Python takes as true, the handler
  puts \<open>T\<close> into the session store, saves the store, and then, on a usable socket,
  writes exactly one string to the socket: the token-auth message with \<open>interactive\<close>
  false and token \<open>T\<close>; the futures and the slot are not touched. When the lookup
  gives nothing true, or fails, the handler leaves the whole state as it is.
\<close>

theorem auth_code_checked_reaction:
  fixes w :: world and payload T :: json
  defines "r \<equiv> on_auth_code_checked payload w"
  defines "d' \<equiv> dict_set (sess_data w) ''token'' T"
  defines "m \<equiv> frame (ver_of w) 0 (conn_seq w + 1) 19
      (JDict [(''interactive'', JBool False), (''token'', T),
              (''chatsCount'', JInt 40), (''chatsSync'', JInt 0), (''contactsSync'', JInt 0),
              (''presenceSync'', JInt 0), (''draftsSync'', JInt 0)])"
  shows "(login_token_of payload = Ret T \<and> truthy T \<and> usable w \<longrightarrow>
            fst r = Returned
          \<and> sess_data (snd r) = d' \<and> session_get ''token'' (snd r) = T
          \<and> disk_file (snd r) = (if disk_writable w then Some d' else disk_file w)
          \<and> trace (snd r) = trace w @
               [Print CODE_VERIFIED [], SessionSet ''token'' T, save_event w d',
                Print TOKEN_SAVED [], Print SENDING_TOKEN []] @ debug_line w m @
               [WsSend (json_dumps m), Print TOKEN_SENT []]
          \<and> wire (trace (snd r)) = wire (trace w) @ [json_dumps m]
          \<and> futures (snd r) = futures w \<and> auth_future (snd r) = auth_future w)
    \<and> ((login_token_of payload = Ret T \<and> \<not> truthy T) \<or> (\<exists>e. login_token_of payload = Raise e)
          \<longrightarrow> snd r = w)"
proof -
  have 1: "fst r = Returned
          \<and> sess_data (snd r) = d' \<and> session_get ''token'' (snd r) = T
          \<and> disk_file (snd r) = (if disk_writable w then Some d' else disk_file w)
          \<and> trace (snd r) = trace w @
               [Print CODE_VERIFIED [], SessionSet ''token'' T, save_event w d',
                Print TOKEN_SAVED [], Print SENDING_TOKEN []] @ debug_line w m @
               [WsSend (json_dumps m), Print TOKEN_SENT []]
          \<and> futures (snd r) = futures w \<and> auth_future (snd r) = auth_future w"
    if "login_token_of payload = Ret T" "truthy T" "usable w"
    using that
    by (simp add: r_def on_auth_code_checked_def Let_def senders_usable DEFAULT_CHATS_COUNT_def
        d'_def m_def save_event_def session_get_def dict_get_set_same)
  have 2: "wire (trace (snd r)) = wire (trace w) @ [json_dumps m]"
    if "login_token_of payload = Ret T" "truthy T" "usable w"
    using 1 [OF that] by (simp add: wire_append save_event_def)
  have 3: "snd r = w" if "(login_token_of payload = Ret T \<and> \<not> truthy T) \<or> (\<exists>e. login_token_of payload = Raise e)"
    using that by (auto simp: r_def on_auth_code_checked_def)
  show ?thesis using 1 2 3 by blast
qed

theorem auth_code_checked_reaction_witness:
  "session_get ''token'' (snd (on_auth_code_checked
       (JDict [(''tokenAttrs'', JDict [(''LOGIN'', JDict [(''token'', JStr ''T'')])])]) phone_waiting)) = JStr ''T''
   \<and> wire (trace (snd (on_auth_code_checked
       (JDict [(''tokenAttrs'', JDict [(''LOGIN'', JDict [(''token'', JStr ''T'')])])]) phone_waiting))) =
     wire (trace phone_waiting) @
       [json_dumps (frame (JInt 11) 0 4 19
          (JDict [(''interactive'', JBool False), (''token'', JStr ''T''),
                  (''chatsCount'', JInt 40), (''chatsSync'', JInt 0), (''contactsSync'', JInt 0),
                  (''presenceSync'', JInt 0), (''draftsSync'', JInt 0)]))]
   \<and> futures (snd (on_auth_code_checked
       (JDict [(''tokenAttrs'', JDict [(''LOGIN'', JDict [(''token'', JStr ''T'')])])]) phone_waiting)) = [Pending]
   \<and> snd (on_auth_code_checked (JDict [(''tokenAttrs'', JDict [])]) phone_waiting) = phone_waiting"
proof -
  have a: "login_token_of (JDict [(''tokenAttrs'', JDict [])]) = Ret JNull"
    by (simp add: login_token_of_def py_get_def dict_get_def)
  show ?thesis
    using auth_code_checked_reaction
      [of "JDict [(''tokenAttrs'', JDict [(''LOGIN'', JDict [(''token'', JStr ''T'')])])]"
          "JStr ''T''" phone_waiting]
      auth_code_checked_reaction [of "JDict [(''tokenAttrs'', JDict [])]" JNull phone_waiting]
    by (simp add: login_token_of_nested a)
qed

section \<open>The pending operation\<close>

lemma fut_step_same:
  "futures w' = futures w \<Longrightarrow> auth_future w' = auth_future w \<Longrightarrow> fut_step w w'"
  by (simp add: fut_step_def)

lemma fut_step_rest: "rest_of w' = rest_of w \<Longrightarrow> fut_step w w'"
  by (simp add: fut_step_def rest_of_def)

lemma rest_of_more_senders [simp]:
  "rest_of (snd (send_message c t r cid w)) = rest_of w"
  "rest_of (snd (send_sticker c st r cid w)) = rest_of w"
  "rest_of (snd (send_reaction c mi rt ri w)) = rest_of w"
  "rest_of (snd (edit_message c mi t w)) = rest_of w"
  "rest_of (snd (delete_message c mi w)) = rest_of w"
  "rest_of (snd (send_get_chats cs w)) = rest_of w"
  "rest_of (snd (send_get_contacts cs w)) = rest_of w"
  by (simp_all add: send_message_def send_sticker_def send_reaction_def edit_message_def
      delete_message_def send_get_chats_def send_get_contacts_def Let_def)

lemma rest_of_connect [simp]:
  "rest_of (snd (connect a b w)) = rest_of w"
  "rest_of (snd (disconnect w)) = rest_of w"
  by (simp_all add: connect_def disconnect_def ws_connect_def ws_close_def initialize_def
      rest_of_def create_message_def conn_send_def ws_send_def emit_def Let_def
      split: res.splits prod.splits json.splits)

lemma fut_step_authenticate: "fut_step w (snd (authenticate ph cb t1 t2 w))"
  by (simp add: authenticate_def Let_def case_prod_beta new_future_def fut_step_def
      split: res.splits option.splits)

lemma pending_handle_Some:
  "pending_handle w = Some i \<Longrightarrow> auth_future w = Some i \<and> i < length (futures w) \<and> futures w ! i = Pending"
  by (auto simp: pending_handle_def split: option.splits if_splits)

lemma fut_step_handlers:
  "fut_step w (snd (on_auth_success p w))"
  "fut_step w (snd (on_auth_code_requested p c w))"
  "fut_step w (snd (on_auth_code_checked p w))"
  "fut_step w (snd (on_auth_error p t1 t2 w))"
  "fut_step w (snd (on_auth_code_error p w))"
  "fut_step w (snd (reauth_wait_end i w))"
  by (auto simp: on_auth_success_def on_auth_code_requested_def on_auth_code_checked_def
      on_auth_error_def on_auth_code_error_def reauth_wait_end_def
      Let_def case_prod_beta new_future_def fut_step_def
      split: res.splits option.splits future.splits)

lemma fut_step_step: "fut_step w (step a w)"
  by (cases a) (simp_all add: fut_step_rest fut_step_authenticate fut_step_handlers fut_step_same)

lemma slot_valid_fut_step:
  assumes "fut_step w w'" and "slot_valid w"
  shows "slot_valid w'"
  using assms
  by (auto simp: fut_step_def slot_valid_def split: option.splits)

lemma slot_valid_run: "slot_valid w \<Longrightarrow> slot_valid (run acts w)"
  by (induction acts arbitrary: w) (auto intro: slot_valid_fut_step fut_step_step)

lemma fut_step_length:
  assumes "fut_step w w'"
  shows "length (futures w) \<le> length (futures w') \<and> length (futures w') \<le> length (futures w) + 1"
  using assms by (auto simp: fut_step_def)

lemma fut_step_fresh:
  assumes "fut_step w w'" and "length (futures w') = length (futures w) + 1"
  shows "auth_future w' = Some (length (futures w)) \<and> futures w' ! length (futures w) = Pending"
  using assms by (auto simp: fut_step_def)

lemma fut_step_settled:
  assumes "fut_step w w'" and "i < length (futures w)" and "futures w ! i \<noteq> Pending"
  shows "futures w' ! i = futures w ! i"
  using assms
  by (auto simp: fut_step_def nth_append nth_list_update dest!: pending_handle_Some)

lemma only_slot_pending_fut_step:
  assumes "fut_step w w'" and "only_slot_pending w"
    and "length (futures w') = length (futures w) \<or> pending_handle w = None"
  shows "only_slot_pending w'"
proof -
  consider
    (same) "futures w' = futures w" "auth_future w' = auth_future w"
  | (new) "futures w' = futures w @ [Pending]" "auth_future w' = Some (length (futures w))"
  | (settle) i f where "pending_handle w = Some i" "f \<noteq> Pending"
      "futures w' = (futures w)[i := f]" "auth_future w' = auth_future w"
  | (cancel) i where "i < length (futures w)" "futures w ! i = Pending"
      "futures w' = (futures w)[i := Cancelled]" "auth_future w' = auth_future w"
    using assms(1) unfolding fut_step_def by blast
  then show ?thesis
  proof cases
    case same
    then show ?thesis using assms(2) by (simp add: only_slot_pending_def)
  next
    case new
    then have none: "pending_handle w = None" using assms(3) by simp
    have "futures w ! i \<noteq> Pending" if "i < length (futures w)" for i
    proof
      assume p: "futures w ! i = Pending"
      then have "auth_future w = Some i" using assms(2) that by (simp add: only_slot_pending_def)
      then have "pending_handle w = Some i" using that p by (simp add: pending_handle_def)
      then show False using none by simp
    qed
    then show ?thesis using new
      by (auto simp: only_slot_pending_def nth_append less_Suc_eq)
  next
    case settle
    show ?thesis
      unfolding only_slot_pending_def
    proof (intro allI impI)
      fix j
      assume j: "j < length (futures w')" and p: "futures w' ! j = Pending"
      have ji: "j \<noteq> i" using p j settle(2,3) by (auto simp: nth_list_update)
      then have "futures w ! j = Pending" using p settle(3) by simp
      then have "auth_future w = Some j"
        using assms(2) j settle(3) by (simp add: only_slot_pending_def)
      then show "auth_future w' = Some j" using settle(4) by simp
    qed
  next
    case cancel
    show ?thesis
      unfolding only_slot_pending_def
    proof (intro allI impI)
      fix j
      assume j: "j < length (futures w')" and p: "futures w' ! j = Pending"
      have ji: "j \<noteq> i" using p j cancel(1,3) by (auto simp: nth_list_update)
      then have "futures w ! j = Pending" using p cancel(3) by simp
      then have "auth_future w = Some j"
        using assms(2) j cancel(3) by (simp add: only_slot_pending_def)
      then show "auth_future w' = Some j" using cancel(4) by simp
    qed
  qed
qed

lemma only_slot_pending_run:
  "only_slot_pending w \<Longrightarrow> disciplined acts w \<Longrightarrow> only_slot_pending (run acts w)"
proof (induction acts arbitrary: w)
  case Nil
  then show ?case by simp
next
  case (Cons a acts)
  have "only_slot_pending (step a w)"
    using only_slot_pending_fut_step [OF fut_step_step Cons.prems(1)] Cons.prems(2) by simp
  then show ?case using Cons.IH Cons.prems(2) by simp
qed

lemma outstanding_le_one:
  assumes "only_slot_pending w"
  shows "outstanding w \<le> 1"
proof -
  have "{i. i < length (futures w) \<and> futures w ! i = Pending} \<subseteq>
        (case auth_future w of None \<Rightarrow> {} | Some i \<Rightarrow> {i})"
    using assms by (auto simp: only_slot_pending_def split: option.splits)
  then have "card {i. i < length (futures w) \<and> futures w ! i = Pending} \<le>
        card (case auth_future w of None \<Rightarrow> {} | Some i \<Rightarrow> {i})"
    by (intro card_mono) (auto split: option.splits)
  also have "\<dots> \<le> 1" by (simp split: option.splits)
  finally show ?thesis
    by (simp add: outstanding_def length_filter_conv_card)
qed

lemma init_world_futures [simp]:
  "slot_valid (init_world s d wr f)" "only_slot_pending (init_world s d wr f)"
  by (simp_all add: slot_valid_def only_slot_pending_def init_world_def)

text \<open>
  C1, as the code has it. Along every run from the constructors: the slot refers to a
  future that exists; a step creates at most one future, and a new future is fresh,
  pending and the one the slot refers to; a future that is resolved, failed or
  cancelled never changes again. The code does not check the slot before it creates
  a future: at most one future is pending as long as no step creates one while the
  future of the slot is pending.
\<close>

theorem pending_slot_discipline:
  fixes acts :: "action list" and a :: action and s :: dict and d wr :: bool and f :: "dict option"
  defines "w \<equiv> run acts (init_world s d wr f)"
  defines "w' \<equiv> step a w"
  shows "slot_valid w
    \<and> length (futures w) \<le> length (futures w') \<and> length (futures w') \<le> length (futures w) + 1
    \<and> (length (futures w') = length (futures w) + 1 \<longrightarrow>
          auth_future w' = Some (length (futures w)) \<and> futures w' ! length (futures w) = Pending)
    \<and> (\<forall>i < length (futures w). futures w ! i \<noteq> Pending \<longrightarrow> futures w' ! i = futures w ! i)
    \<and> (disciplined acts (init_world s d wr f) \<longrightarrow> outstanding w \<le> 1)"
proof -
  have fs: "fut_step w w'" unfolding w'_def by (rule fut_step_step)
  have 1: "slot_valid w" unfolding w_def by (rule slot_valid_run) simp
  have 5: "outstanding w \<le> 1" if "disciplined acts (init_world s d wr f)"
    unfolding w_def by (rule outstanding_le_one, rule only_slot_pending_run [OF _ that]) simp
  show ?thesis
    using 1 5 fut_step_length [OF fs] fut_step_fresh [OF fs] fut_step_settled [OF fs]
    by blast
qed

lemma success_world_facts:
  "run [Connect True True] (init_world [] False True None) = connected_world []"
  "step (Authenticate (Some ''+79001234567'') True 7 8) (connected_world []) = phone_waiting"
  "run [Connect True True, Authenticate (Some ''+79001234567'') True 7 8, EvAuthSuccess (JDict [])]
     (init_world [] False True None) = snd (on_auth_success (JDict []) phone_waiting)"
  "futures (snd (on_auth_success (JDict []) phone_waiting)) = [Resolved (JDict [])]"
  "disciplined [Connect True True, Authenticate (Some ''+79001234567'') True 7 8,
                EvAuthSuccess (JDict [])] (init_world [] False True None)"
proof -
  show a: "run [Connect True True] (init_world [] False True None) = connected_world []"
    and b: "step (Authenticate (Some ''+79001234567'') True 7 8) (connected_world []) = phone_waiting"
    and c: "run [Connect True True, Authenticate (Some ''+79001234567'') True 7 8, EvAuthSuccess (JDict [])]
     (init_world [] False True None) = snd (on_auth_success (JDict []) phone_waiting)"
    by (simp_all add: phone_waiting_def connected_world_def)
  show d: "futures (snd (on_auth_success (JDict []) phone_waiting)) = [Resolved (JDict [])]"
    by (simp add: on_auth_success_def py_get_def dict_get_def)
  have e: "step (Connect True True) (init_world [] False True None) = connected_world []"
    by (simp add: connected_world_def)
  have f: "futures (init_world [] False True None) = []"
    by (simp add: init_world_def)
  show "disciplined [Connect True True, Authenticate (Some ''+79001234567'') True 7 8,
                EvAuthSuccess (JDict [])] (init_world [] False True None)"
    unfolding disciplined.simps e b
    using d f by simp
qed

theorem pending_slot_discipline_witness:
  "auth_future (step (Authenticate (Some ''+79001234567'') True 7 8)
       (run [Connect True True] (init_world [] False True None))) = Some 0
   \<and> futures (step (EvAuthCodeError (JDict []))
       (run [Connect True True, Authenticate (Some ''+79001234567'') True 7 8,
             EvAuthSuccess (JDict [])] (init_world [] False True None))) ! 0 = Resolved (JDict [])
   \<and> outstanding (run [Connect True True, Authenticate (Some ''+79001234567'') True 7 8,
             EvAuthSuccess (JDict [])] (init_world [] False True None)) \<le> 1"
proof -
  note t1 = pending_slot_discipline [of "[Connect True True]" "[]" False True None
      "Authenticate (Some ''+79001234567'') True 7 8"]
  note t2 = pending_slot_discipline [of "[Connect True True,
      Authenticate (Some ''+79001234567'') True 7 8, EvAuthSuccess (JDict [])]"
      "[]" False True None "EvAuthCodeError (JDict [])"]
  have c: "auth_future (step (Authenticate (Some ''+79001234567'') True 7 8)
       (run [Connect True True] (init_world [] False True None))) = Some 0"
    using t1 unfolding success_world_facts(1,2) by simp
  have o: "outstanding (run [Connect True True, Authenticate (Some ''+79001234567'') True 7 8,
             EvAuthSuccess (JDict [])] (init_world [] False True None)) \<le> 1"
    using t2 success_world_facts(5) by blast
  have "\<forall>i<length (futures (run [Connect True True, Authenticate (Some ''+79001234567'') True 7 8,
             EvAuthSuccess (JDict [])] (init_world [] False True None))).
        futures (run [Connect True True, Authenticate (Some ''+79001234567'') True 7 8,
             EvAuthSuccess (JDict [])] (init_world [] False True None)) ! i \<noteq> Pending \<longrightarrow>
        futures (step (EvAuthCodeError (JDict []))
          (run [Connect True True, Authenticate (Some ''+79001234567'') True 7 8,
             EvAuthSuccess (JDict [])] (init_world [] False True None))) ! i =
        futures (run [Connect True True, Authenticate (Some ''+79001234567'') True 7 8,
             EvAuthSuccess (JDict [])] (init_world [] False True None)) ! i"
    using t2 by blast
  then have s: "futures (step (EvAuthCodeError (JDict []))
       (run [Connect True True, Authenticate (Some ''+79001234567'') True 7 8,
             EvAuthSuccess (JDict [])] (init_world [] False True None))) ! 0 = Resolved (JDict [])"
    unfolding success_world_facts(3) by (simp add: success_world_facts(4))
  show ?thesis using c o s by simp
qed

text \<open>
  The claim C1 as stated says that the engine never creates a pending operation while
  an earlier one is unresolved. A login by phone followed by an \<open>auth_error\<close> with
  \<open>login.token\<close>: the handler starts the re-authentication and puts a new future
  into the slot while the future that \<^verbatim>\<open>authenticate\<close> awaits is pending. Two futures
  are pending, and a later \<open>auth_success\<close> resolves the new one only:
  \<^verbatim>\<open>authenticate\<close> keeps waiting.
\<close>

theorem reauth_overwrites_pending_counterexample:
  "futures (run [Connect True True, Authenticate (Some ''+79001234567'') True 7 8]
            (init_world [] False True None)) = [Pending]
   \<and> fst (on_auth_error (JDict [(''error'', JStr ''login.token'')]) 1 2
        (run [Connect True True, Authenticate (Some ''+79001234567'') True 7 8]
            (init_world [] False True None))) = AwaitingFor 1 AUTH_TIMEOUT_ms
   \<and> futures (run [Connect True True, Authenticate (Some ''+79001234567'') True 7 8,
                   EvAuthError (JDict [(''error'', JStr ''login.token'')]) 1 2]
            (init_world [] False True None)) = [Pending, Pending]
   \<and> outstanding (run [Connect True True, Authenticate (Some ''+79001234567'') True 7 8,
                   EvAuthError (JDict [(''error'', JStr ''login.token'')]) 1 2]
            (init_world [] False True None)) = 2
   \<and> futures (run [Connect True True, Authenticate (Some ''+79001234567'') True 7 8,
                   EvAuthError (JDict [(''error'', JStr ''login.token'')]) 1 2,
                   EvAuthSuccess (JDict [])]
            (init_world [] False True None)) = [Pending, Resolved (JDict [])]
   \<and> authenticate_resume 0 (run [Connect True True, Authenticate (Some ''+79001234567'') True 7 8,
                   EvAuthError (JDict [(''error'', JStr ''login.token'')]) 1 2,
                   EvAuthSuccess (JDict [])]
            (init_world [] False True None)) = Awaiting 0"
proof -
  have w: "run [Connect True True, Authenticate (Some ''+79001234567'') True 7 8]
            (init_world [] False True None) = phone_waiting"
    by (simp add: phone_waiting_def connected_world_def)
  have e: "fst (on_auth_error (JDict [(''error'', JStr ''login.token'')]) 1 2 phone_waiting) =
      AwaitingFor 1 AUTH_TIMEOUT_ms"
    and f: "futures (snd (on_auth_error (JDict [(''error'', JStr ''login.token'')]) 1 2 phone_waiting))
      = [Pending, Pending]"
    and g: "auth_future (snd (on_auth_error (JDict [(''error'', JStr ''login.token'')]) 1 2 phone_waiting))
      = Some 1"
    by (simp_all add: on_auth_error_reauth_usable [where p = "''+79001234567''"]
        token_invalid_def dict_get_def)
  have h: "pending_handle (snd (on_auth_error (JDict [(''error'', JStr ''login.token'')]) 1 2 phone_waiting))
      = Some 1"
    by (simp add: pending_handle_def f g)
  have r3: "run [Connect True True, Authenticate (Some ''+79001234567'') True 7 8,
                   EvAuthError (JDict [(''error'', JStr ''login.token'')]) 1 2]
            (init_world [] False True None) =
        snd (on_auth_error (JDict [(''error'', JStr ''login.token'')]) 1 2 phone_waiting)"
    by (simp add: phone_waiting_def connected_world_def)
  have r4: "run [Connect True True, Authenticate (Some ''+79001234567'') True 7 8,
                   EvAuthError (JDict [(''error'', JStr ''login.token'')]) 1 2,
                   EvAuthSuccess (JDict [])]
            (init_world [] False True None) =
        snd (on_auth_success (JDict [])
          (snd (on_auth_error (JDict [(''error'', JStr ''login.token'')]) 1 2 phone_waiting)))"
    by (simp add: phone_waiting_def connected_world_def)
  have s: "futures (snd (on_auth_success (JDict [])
          (snd (on_auth_error (JDict [(''error'', JStr ''login.token'')]) 1 2 phone_waiting))))
      = [Pending, Resolved (JDict [])]"
    by (simp add: on_auth_success_def py_get_def dict_get_def h f)
  show ?thesis
    unfolding w r3 r4
    using e f s by (simp add: outstanding_def authenticate_resume_def)
qed

section \<open>The sequence numbers of the frames written to the socket\<close>

lemma grows_iff:
  "grows p q \<longleftrightarrow> (\<exists>a b. fst q = fst p @ a \<and> snd q = snd p @ b \<and> subseq a (map json_dumps b))"
  by (auto simp: grows_def prefix_def)

lemma grows_refl [simp]: "grows p p"
  by (simp add: grows_def)

lemma grows_built: "grows b (ss, ms) \<Longrightarrow> grows b (ss, ms @ [m])"
  by (auto simp: grows_iff)

lemma grows_written: "grows b (ss, ms) \<Longrightarrow> grows b (ss @ [json_dumps m], ms @ [m])"
  by (auto simp: grows_iff intro: list_emb_append_mono)

lemma subseq_map_ex:
  "subseq xs (map f ys) \<Longrightarrow> \<exists>zs. subseq zs ys \<and> xs = map f zs"
proof (induction ys arbitrary: xs)
  case Nil
  then show ?case by (cases xs) auto
next
  case (Cons y ys)
  show ?case
  proof (cases xs)
    case Nil
    then show ?thesis by simp
  next
    case (Cons x xs')
    show ?thesis
    proof (cases "x = f y")
      case True
      then have "subseq xs' (map f ys)" using Cons.prems Cons by simp
      then obtain zs where zs: "subseq zs ys" "xs' = map f zs" using Cons.IH by blast
      from zs(1) have "subseq (y # zs) (y # ys)" by simp
      moreover have "xs = map f (y # zs)" using True Cons zs(2) by simp
      ultimately show ?thesis by blast
    next
      case False
      then have "subseq xs (map f ys)" using Cons.prems Cons by simp
      then obtain zs where zs: "subseq zs ys" "xs = map f zs" using Cons.IH by blast
      from zs(1) have "subseq zs (y # ys)" by (rule list_emb_Cons)
      then show ?thesis using zs(2) by blast
    qed
  qed
qed

lemma written_of_updates [simp]:
  "written_of (w\<lparr>ws_websocket := a\<rparr>) = written_of w"
  "written_of (w\<lparr>ws_is_connected := a\<rparr>) = written_of w"
  "written_of (w\<lparr>net_up := a\<rparr>) = written_of w"
  "written_of (w\<lparr>sess_data := sd\<rparr>) = written_of w"
  "written_of (w\<lparr>disk_writable := a\<rparr>) = written_of w"
  "written_of (w\<lparr>disk_file := df\<rparr>) = written_of w"
  "written_of (w\<lparr>auth_future := af\<rparr>) = written_of w"
  "written_of (w\<lparr>auth_code_callback := a\<rparr>) = written_of w"
  "written_of (w\<lparr>auth_phone := ph\<rparr>) = written_of w"
  "written_of (w\<lparr>futures := fs\<rparr>) = written_of w"
  "written_of (w\<lparr>conn_seq := n\<rparr>) = written_of w"
  by (simp_all add: written_of_def)

lemma written_of_quiet [simp]:
  "wire [e] = [] \<Longrightarrow> written_of (emit e w) = written_of w"
  by (simp add: written_of_def emit_def)

lemma written_of_session [simp]:
  "written_of (session_set k v w) = written_of w"
  "written_of (session_save w) = written_of w"
  by (simp_all add: session_set_def session_save_def)

lemma written_of_futures [simp]:
  "written_of (snd (new_future w)) = written_of w"
  "written_of (future_set_result i v w) = written_of w"
  "written_of (future_set_exception i e w) = written_of w"
  "written_of (future_cancel i w) = written_of w"
  by (simp_all add: new_future_def future_set_result_def future_set_exception_def
      future_cancel_def Let_def)

lemma written_of_send_return_seq:
  "written_of (snd (send_return_seq m w)) = written_of (snd (conn_send m w))"
  by (cases "conn_send m w") (auto simp: send_return_seq_def split: res.splits)

lemma grows_create_send:
  assumes "grows b (written_of w)"
  shows "grows b (written_of (snd (conn_send (fst (create_message opc p c w))
                                             (snd (create_message opc p c w)))))"
proof -
  let ?m = "fst (create_message opc p c w)"
  have "written_of (snd (conn_send ?m (snd (create_message opc p c w)))) =
          (wire (trace w), produced w @ [?m])
      \<or> written_of (snd (conn_send ?m (snd (create_message opc p c w)))) =
          (wire (trace w) @ [json_dumps ?m], produced w @ [?m])"
    by (simp add: conn_send_def ws_send_def create_message_def emit_def written_of_def Let_def)
  then show ?thesis
    using assms grows_built [of b "wire (trace w)" "produced w" ?m]
      grows_written [of b "wire (trace w)" "produced w" ?m]
    by (auto simp: written_of_def)
qed

lemma grows_sender:
  assumes "grows b (written_of w)"
  shows "grows b (written_of (snd (case create_message opc p 0 w of (m, w1) \<Rightarrow> send_return_seq m w1)))"
  using grows_create_send [OF assms, of opc p 0]
  by (simp add: case_prod_beta written_of_send_return_seq)

lemma grows_senders:
  assumes "grows b (written_of w)"
  shows "grows b (written_of (snd (send_message c t r cid w)))"
    and "grows b (written_of (snd (send_sticker c st r cid w)))"
    and "grows b (written_of (snd (send_reaction c mi rt ri w)))"
    and "grows b (written_of (snd (edit_message c mi t w)))"
    and "grows b (written_of (snd (delete_message c mi w)))"
    and "grows b (written_of (snd (send_events evs w)))"
    and "grows b (written_of (snd (send_auth_start ph lang w)))"
    and "grows b (written_of (snd (send_auth_code tok code w)))"
    and "grows b (written_of (snd (send_auth_token tok i n w)))"
    and "grows b (written_of (snd (send_get_chats cs w)))"
    and "grows b (written_of (snd (send_get_contacts cs w)))"
  using assms
  by (simp_all add: send_message_def send_sticker_def send_reaction_def edit_message_def
      delete_message_def send_events_def send_auth_start_def send_auth_code_def
      send_auth_token_def send_get_chats_def send_get_contacts_def Let_def grows_sender)

lemma grows_connect:
  assumes "grows b (written_of w)"
  shows "grows b (written_of (snd (connect i a w)))"
proof -
  have 1: "grows b (written_of (snd (ws_connect i a w)))"
    using assms by (simp add: ws_connect_def)
  have 2: "grows b (written_of (snd (initialize v)))" if "grows b (written_of v)" for v
  proof -
    have "grows b (written_of (emit (Print DEVICE_INIT []) v))" using that by simp
    then have "grows b (written_of (snd (conn_send
        (fst (create_message 6 p 0 (emit (Print DEVICE_INIT []) v)))
        (snd (create_message 6 p 0 (emit (Print DEVICE_INIT []) v))))))" for p
      by (rule grows_create_send)
    then show ?thesis
      by (simp add: initialize_def Let_def case_prod_beta split: prod.splits res.splits json.splits)
  qed
  have 3: "grows b (written_of (snd (initialize (snd (ws_connect i a w)))))"
    using 1 by (rule 2)
  show ?thesis
    using 1 3 by (simp add: connect_def case_prod_beta split: res.splits)
qed

lemma grows_authenticate:
  assumes "grows b (written_of w)"
  shows "grows b (written_of (snd (authenticate ph cb t1 t2 w)))"
  using assms
  by (simp add: authenticate_def Let_def case_prod_beta grows_senders
      split: res.splits option.splits)

lemma grows_handlers:
  assumes "grows b (written_of w)"
  shows "grows b (written_of (snd (on_auth_success p w)))"
    and "grows b (written_of (snd (on_auth_code_requested p c w)))"
    and "grows b (written_of (snd (on_auth_code_checked p w)))"
    and "grows b (written_of (snd (on_auth_error p t1 t2 w)))"
    and "grows b (written_of (snd (on_auth_code_error p w)))"
    and "grows b (written_of (snd (reauth_wait_end i w)))"
  using assms
  by (simp_all add: on_auth_success_def on_auth_code_requested_def on_auth_code_checked_def
      on_auth_error_def on_auth_code_error_def reauth_wait_end_def
      Let_def case_prod_beta grows_senders
      split: res.splits option.splits future.splits)

lemma grows_step:
  assumes "grows b (written_of w)"
  shows "grows b (written_of (step a w))"
  using assms
  by (cases a) (simp_all add: grows_senders grows_handlers grows_authenticate
      grows_connect disconnect_def ws_close_def Let_def)

lemma grows_run:
  "grows b (written_of w) \<Longrightarrow> grows b (written_of (run acts w))"
  by (induction acts arbitrary: w) (simp_all add: grows_step)

lemma written_of_init: "written_of (init_world s d wr f) = ([], [])"
  by (simp add: written_of_def init_world_def)


lemma subseq_set_mono: "subseq xs ys \<Longrightarrow> set xs \<subseteq> set ys"
  by (auto dest: list_emb_set)

lemma sorted_wrt_subseq:
  "subseq xs ys \<Longrightarrow> sorted_wrt P ys \<Longrightarrow> sorted_wrt P xs"
proof (induction ys arbitrary: xs)
  case Nil
  then show ?case by (cases xs) auto
next
  case (Cons y ys)
  show ?case
  proof (cases xs)
    case Nil
    then show ?thesis by simp
  next
    case (Cons x xs')
    show ?thesis
    proof (cases "x = y")
      case True
      then have e: "subseq xs' ys" using Cons.prems(1) Cons by simp
      then have "sorted_wrt P xs'" using Cons.IH Cons.prems(2) by simp
      moreover have "set xs' \<subseteq> set ys" using e by (rule subseq_set_mono)
      ultimately show ?thesis using Cons.prems(2) True Cons by auto
    next
      case False
      then have "subseq xs ys" using Cons.prems(1) Cons by simp
      then show ?thesis using Cons.IH Cons.prems(2) by simp
    qed
  qed
qed

lemma demo_run_wire_length:
  "length (wire (trace (run all_defs_demo_run (init_world [] False True None)))) = 3"
  by (simp add: all_defs_demo_run_def init_world_def connect_def ws_connect_def initialize_def
      create_message_def frame_def conn_send_def ws_send_def send_return_seq_def send_auth_token_def
      send_events_def emit_def dict_get_def get_user_agent_dict_def Let_def)

lemma failed_send_run:
  "wire (trace (run [EditMessage 7 ''m'' ''t'', Connect True True] (init_world [] False True None))) =
     [json_dumps (frame (JInt 11) 0 2 6
        (JDict [(''userAgent'', get_user_agent_dict (init_world [] False True None)),
                (''deviceId'', JStr [])]))]"
  by (simp add: init_world_def connect_def ws_connect_def initialize_def edit_message_def
      create_message_def conn_send_def ws_send_def send_return_seq_def
      emit_def dict_get_def get_user_agent_dict_def Let_def)

lemma gap_run:
  "wire (trace (run [Connect True True, NetDown, SendEvents [], Connect True True, SendEvents []]
       (init_world [] False True None))) =
     [json_dumps (frame (JInt 11) 0 1 6
        (JDict [(''userAgent'', get_user_agent_dict (init_world [] False True None)),
                (''deviceId'', JStr [])])),
      json_dumps (frame (JInt 11) 0 3 6
        (JDict [(''userAgent'', get_user_agent_dict (init_world [] False True None)),
                (''deviceId'', JStr [])])),
      json_dumps (frame (JInt 11) 0 4 5 (JDict [(''events'', JList [])]))]"
  by (simp add: init_world_def connect_def ws_connect_def initialize_def send_events_def
      create_message_def conn_send_def ws_send_def send_return_seq_def
      emit_def dict_get_def get_user_agent_dict_def Let_def)

text \<open>
  C7, as the code has it. Along every run of a connection object from its constructor:
  the counter \<^verbatim>\<open>_seq\<close> is the number of messages that \<^verbatim>\<open>_create_message\<close> has built,
  and the \<open>seq\<close> field of the n-th message built is n, with no reset, also across
  \<^verbatim>\<open>disconnect\<close> and a new \<^verbatim>\<open>connect\<close>. The strings written to the socket are, in their
  order, the encodings of some of the messages built (\<open>ms\<close>): their \<open>seq\<close> fields (\<open>ns\<close>)
  increase strictly and lie between 1 and the counter. When as many strings have been
  written as messages built, that is when no send has failed, the n-th string written
  is the encoding of the n-th message built, so its \<open>seq\<close> is n. What has been built
  and what has been written stays as the run goes on (\<open>more\<close>).
\<close>

theorem seq_of_written_frames:
  fixes acts more :: "action list" and s :: dict and d wr :: bool and f :: "dict option"
  defines "w \<equiv> run acts (init_world s d wr f)"
  shows "conn_seq w = int (length (produced w))
    \<and> map (frame_field ''seq'') (produced w) = map JInt [1 .. conn_seq w]
    \<and> (\<exists>ms ns. subseq ms (produced w) \<and> wire (trace w) = map json_dumps ms
          \<and> map (frame_field ''seq'') ms = map JInt ns
          \<and> sorted_wrt (<) ns \<and> set ns \<subseteq> {1 .. conn_seq w})
    \<and> (length (wire (trace w)) = length (produced w) \<longrightarrow>
          wire (trace w) = map json_dumps (produced w))
    \<and> prefix (produced w) (produced (run more w))
    \<and> prefix (wire (trace w)) (wire (trace (run more w)))"
proof -
  have ok: "frames_ok (frames_of w)"
    unfolding w_def by (rule frames_ok_run [OF frames_ok_init])
  then have 1: "conn_seq w = int (length (produced w))"
    and 2: "map (frame_field ''seq'') (produced w) = map JInt [1 .. conn_seq w]"
    by (simp_all add: frames_ok_def frames_of_def)
  have "grows ([], []) (written_of w)"
    unfolding w_def using grows_run [of "([], [])" "init_world s d wr f" acts]
    by (simp add: written_of_init)
  then have sub: "subseq (wire (trace w)) (map json_dumps (produced w))"
    by (simp add: grows_def written_of_def)
  then obtain ms where ms: "subseq ms (produced w)" "wire (trace w) = map json_dumps ms"
    using subseq_map_ex by blast
  from ms(1) have "subseq (map (frame_field ''seq'') ms) (map JInt [1 .. conn_seq w])"
    using subseq_map [of ms "produced w" "frame_field ''seq''"] 2 by simp
  then obtain ns where ns: "subseq ns [1 .. conn_seq w]" "map (frame_field ''seq'') ms = map JInt ns"
    using subseq_map_ex by blast
  have "sorted_wrt (<) ns"
    using ns(1) sorted_wrt_upto by (rule sorted_wrt_subseq)
  moreover have "set ns \<subseteq> {1 .. conn_seq w}"
    using subseq_set_mono [OF ns(1)] by simp
  ultimately have 3: "\<exists>ms ns. subseq ms (produced w) \<and> wire (trace w) = map json_dumps ms
          \<and> map (frame_field ''seq'') ms = map JInt ns
          \<and> sorted_wrt (<) ns \<and> set ns \<subseteq> {1 .. conn_seq w}"
    using ms ns(2) by blast
  have 4: "wire (trace w) = map json_dumps (produced w)"
    if "length (wire (trace w)) = length (produced w)"
    using sub that by (simp add: subseq_same_length)
  have "grows (written_of w) (written_of (run more w))"
    by (rule grows_run) simp
  then have 5: "prefix (produced w) (produced (run more w))"
    and 6: "prefix (wire (trace w)) (wire (trace (run more w)))"
    by (simp_all add: grows_def written_of_def)
  show ?thesis using 1 2 3 4 5 6 by blast
qed

theorem seq_of_written_frames_witness:
  "wire (trace (run all_defs_demo_run (init_world [] False True None))) =
     map json_dumps (produced (run all_defs_demo_run (init_world [] False True None)))
   \<and> map (frame_field ''seq'') (produced (run all_defs_demo_run (init_world [] False True None))) =
     [JInt 1, JInt 2, JInt 3]"
  using seq_of_written_frames [where acts = all_defs_demo_run and s = "[]" and d = False
      and wr = True and f = None and more = "[]"]
  by (simp add: demo_run_produced_length demo_run_wire_length upto.simps)

text \<open>
  The claim C7 as stated numbers the frames written to the socket 1, 2, 3, ... A
  message whose send raises has used its number all the same. A client that edits a
  message before it connects writes, as its first frame, the one with \<open>seq\<close> 2; and
  when the peer has gone away between two sends, the frames written carry the \<open>seq\<close>
  fields 1, 3, 4.
\<close>

theorem failed_send_skips_seq_counterexample:
  "wire (trace (run [EditMessage 7 ''m'' ''t'', Connect True True] (init_world [] False True None))) =
     [json_dumps (frame (JInt 11) 0 2 6
        (JDict [(''userAgent'', get_user_agent_dict (init_world [] False True None)),
                (''deviceId'', JStr [])]))]
   \<and> wire (trace (run [Connect True True, NetDown, SendEvents [], Connect True True, SendEvents []]
       (init_world [] False True None))) =
     [json_dumps (frame (JInt 11) 0 1 6
        (JDict [(''userAgent'', get_user_agent_dict (init_world [] False True None)),
                (''deviceId'', JStr [])])),
      json_dumps (frame (JInt 11) 0 3 6
        (JDict [(''userAgent'', get_user_agent_dict (init_world [] False True None)),
                (''deviceId'', JStr [])])),
      json_dumps (frame (JInt 11) 0 4 5 (JDict [(''events'', JList [])]))]"
  using failed_send_run gap_run by simp

section \<open>Encoding and decoding\<close>

lemma ord_inj: "(c = d) = (ord c = ord d)"
  by (simp add: ord_def)

lemma ord_less_256 [simp]: "ord c < 256"
proof -
  have "ord c mod 256 = ord c" by (simp add: ord_def of_char_mod_256)
  then show ?thesis by (metis mod_less_divisor zero_less_numeral)
qed

lemma char_of_ord [simp]: "char_of (ord c) = c"
  by (simp add: ord_def)

lemma ord_char_of [simp]: "n < 256 \<Longrightarrow> ord (char_of n) = n"
  by (simp add: ord_def)

lemma ord_digit_char [simp]: "n < 10 \<Longrightarrow> ord (digit_char n) = 48 + n"
  by (simp add: digit_char_def)

lemma ord_hex_char: "n < 16 \<Longrightarrow> ord (hex_char n) = (if n < 10 then 48 + n else 87 + n)"
  by (simp add: hex_char_def)

lemma hex_val_hex_char [simp]: "n < 16 \<Longrightarrow> hex_val (hex_char n) = Some n"
  by (auto simp: hex_val_def ord_hex_char)

lemma hex_val_zero [simp]: "hex_val (CHR ''0'') = Some 0"
  by (simp add: hex_val_def ord_def)

lemma parse_hex4_escape [simp]:
  "parse_hex4 (CHR ''0'' # CHR ''0'' # hex_char (ord c div 16) # hex_char (ord c mod 16) # s) = Some (ord c)"
proof -
  have "ord c div 16 < 16" using ord_less_256 [of c] by (simp add: less_mult_imp_div_less)
  then show ?thesis by (simp add: parse_hex4_def)
qed

lemma scan_escape: "scan_string (escape_char c @ s) = cons_result c (scan_string s)"
proof -
  consider (q) "c = CHR 0x22" | (b) "c = CHR 0x5C" | (n) "c = CHR 0x0A" | (r) "c = CHR 0x0D"
    | (t) "c = CHR 0x09" | (bs) "c = CHR 0x08" | (f) "c = CHR 0x0C"
    | (plain) "c \<noteq> CHR 0x22" "c \<noteq> CHR 0x5C" "32 \<le> ord c" "ord c \<le> 126"
    | (hex) "c \<noteq> CHR 0x22" "c \<noteq> CHR 0x5C" "c \<noteq> CHR 0x0A" "c \<noteq> CHR 0x0D" "c \<noteq> CHR 0x09"
        "c \<noteq> CHR 0x08" "c \<noteq> CHR 0x0C" "\<not> (32 \<le> ord c \<and> ord c \<le> 126)"
    by blast
  then show ?thesis
  proof cases
    case plain
    then show ?thesis
      by (auto simp: escape_char_def ord_inj [of c] ord_def)
  next
    case hex
    then show ?thesis
      by (simp add: escape_char_def)
  qed (simp_all add: escape_char_def unescape_def)
qed

lemma scan_quote:
  "scan_string (concat (map escape_char s) @ CHR 0x22 # rest) = Parsed (s, rest)"
  by (induction s) (simp_all add: scan_escape cons_result_def)

lemma is_digit_digit_char [simp]: "n < 10 \<Longrightarrow> is_digit (digit_char n)"
  by (simp add: is_digit_def)

lemma digits_val_snoc: "digits_val (ds @ [c]) = 10 * digits_val ds + (ord c - 48)"
  by (simp add: digits_val_def)

lemma nat_digits_all_digits: "list_all is_digit (nat_digits n)"
  by (induction n rule: nat_digits.induct) (subst nat_digits.simps, simp)

lemma nat_digits_val: "digits_val (nat_digits n) = n"
proof (induction n rule: nat_digits.induct)
  case (1 n)
  show ?case
  proof (cases "n < 10")
    case True
    then show ?thesis by (subst nat_digits.simps) (simp add: digits_val_def)
  next
    case False
    then show ?thesis using 1
      by (subst nat_digits.simps) (simp add: digits_val_snoc)
  qed
qed

lemma ord_zero_char [simp]: "ord (CHR ''0'') = 48"
  by (simp add: ord_def)

lemma nat_digits_hd:
  "\<exists>c cs. nat_digits n = c # cs \<and> is_digit c \<and> (c = CHR ''0'' \<longrightarrow> n = 0 \<and> cs = [])"
proof (induction n rule: nat_digits.induct)
  case (1 n)
  show ?case
  proof (cases "n < 10")
    case True
    have e: "nat_digits n = [digit_char n]"
      by (subst nat_digits.simps) (simp add: True)
    have "n = 0" if "digit_char n = CHR ''0''"
    proof -
      have "ord (digit_char n) = ord (CHR ''0'')" using that by simp
      then show ?thesis using True by simp
    qed
    then show ?thesis using e True by auto
  next
    case False
    then have nz: "n div 10 \<noteq> 0" by simp
    obtain c cs where c: "nat_digits (n div 10) = c # cs" "is_digit c"
      "c = CHR ''0'' \<longrightarrow> n div 10 = 0 \<and> cs = []"
      using 1 False by blast
    have e: "nat_digits n = c # (cs @ [digit_char (n mod 10)])"
      by (subst nat_digits.simps) (simp add: False c(1))
    have "c \<noteq> CHR ''0''" using c(3) nz by blast
    then show ?thesis using e c(2) by blast
  qed
qed

lemma delim_not_digit: "delim rest \<Longrightarrow> takeWhile is_digit (ds @ rest) = takeWhile is_digit ds"
  "delim rest \<Longrightarrow> list_all is_digit ds \<Longrightarrow> dropWhile is_digit (ds @ rest) = rest"
  "delim rest \<Longrightarrow> \<not> float_tail rest"
  by (induction ds)
     (auto simp: delim_def is_digit_def float_tail_def ord_def split: list.splits)

lemma takeWhile_all: "list_all P xs \<Longrightarrow> takeWhile P xs = xs"
  by (induction xs) auto

lemma parse_digits_nat:
  assumes "delim rest"
  shows "parse_digits neg (nat_digits n @ rest) =
     Parsed (JInt (if neg then - int n else int n), rest)"
proof -
  obtain c cs where d: "nat_digits n = c # cs" "is_digit c" "c = CHR ''0'' \<longrightarrow> n = 0 \<and> cs = []"
    using nat_digits_hd by blast
  have all: "list_all is_digit cs"
    using nat_digits_all_digits [of n] d by simp
  have v: "digits_val (c # cs) = n" using nat_digits_val [of n] d by simp
  show ?thesis
  proof (cases "c = CHR ''0''")
    case True
    then show ?thesis using d v assms
      by (simp add: parse_digits_def finish_number_def delim_not_digit)
  next
    case False
    then show ?thesis using d v assms all
      by (simp add: parse_digits_def finish_number_def delim_not_digit takeWhile_all)
  qed
qed

lemma parse_number_int:
  assumes "delim rest"
  shows "parse_number (int_str i @ rest) = Parsed (JInt i, rest)"
proof (cases "i < 0")
  case True
  then show ?thesis
    using parse_digits_nat [OF assms, of True "nat (- i)"]
    by (simp add: parse_number_def int_str_def)
next
  case False
  obtain c cs where d: "nat_digits (nat i) = c # cs" "is_digit c"
    using nat_digits_hd by blast
  then have "c \<noteq> CHR ''-''" by (auto simp: is_digit_def ord_def)
  then show ?thesis
    using parse_digits_nat [OF assms, of False "nat i"] False d
    by (simp add: parse_number_def int_str_def)
qed

lemma int_str_hd: "\<exists>c cs. int_str i = c # cs \<and> (c = CHR ''-'' \<or> is_digit c)"
  using nat_digits_hd [of "nat i"] nat_digits_hd [of "nat (- i)"]
  by (auto simp: int_str_def)

lemma skip_ws_cons: "\<not> is_ws c \<Longrightarrow> skip_ws (c # t) = c # t"
  by (simp add: skip_ws_def)

lemma skip_ws_blank [simp]: "skip_ws (CHR '' '' # t) = skip_ws t"
  by (simp add: skip_ws_def is_ws_def)

lemma skip_ws_Nil [simp]: "skip_ws [] = []"
  by (simp add: skip_ws_def)

lemma num_start:
  assumes "c = CHR ''-'' \<or> is_digit c"
  shows "c \<noteq> CHR 0x22" "c \<noteq> CHR ''{''" "c \<noteq> CHR ''[''" "c \<noteq> CHR ''n''" "c \<noteq> CHR ''t''"
    "c \<noteq> CHR ''f''" "\<not> is_ws c" "c \<noteq> CHR '']''" "c \<noteq> CHR ''}''" "c \<noteq> CHR '',''"
  using assms by (auto simp: is_digit_def is_ws_def ord_def)

lemma dumps_hd: "\<exists>c cs. json_dumps v = c # cs \<and> value_start c"
proof (cases v)
  case (JInt i)
  obtain c cs where "int_str i = c # cs" "c = CHR ''-'' \<or> is_digit c"
    using int_str_hd by blast
  then show ?thesis using JInt num_start [of c] by (simp add: value_start_def)
qed (auto simp: value_start_def is_ws_def quote_def)

lemma dumps_items_hd: "xs \<noteq> [] \<Longrightarrow> \<exists>c cs. dumps_items xs = c # cs \<and> value_start c"
proof (cases xs)
  case Nil
  assume "xs \<noteq> []"
  then show ?thesis using Nil by simp
next
  case (Cons x ys)
  obtain c cs where "json_dumps x = c # cs" "value_start c" using dumps_hd by blast
  then show ?thesis using Cons by (cases ys) auto
qed

lemma dumps_pairs_hd: "kvs \<noteq> [] \<Longrightarrow> \<exists>cs. dumps_pairs kvs = CHR 0x22 # cs"
proof (cases kvs)
  case Nil
  assume "kvs \<noteq> []"
  then show ?thesis using Nil by simp
next
  case (Cons kv ys)
  then show ?thesis by (cases kv; cases ys) (auto simp: quote_def)
qed

lemma skip_ws_dumps [simp]: "skip_ws (json_dumps v @ t) = json_dumps v @ t"
  using dumps_hd [of v] by (auto simp: skip_ws_cons value_start_def)

lemma dict_set_fresh: "k \<notin> fst ` set d \<Longrightarrow> dict_set d k v = d @ [(k, v)]"
  by (induction d) auto

lemma foldl_dict_set:
  "distinct (map fst (acc @ kvs)) \<Longrightarrow>
   foldl (\<lambda>d kv. dict_set d (fst kv) (snd kv)) acc kvs = acc @ kvs"
proof (induction kvs arbitrary: acc)
  case Nil
  then show ?case by simp
next
  case (Cons kv kvs)
  have "fst kv \<notin> fst ` set acc" using Cons.prems by auto
  then have "dict_set acc (fst kv) (snd kv) = acc @ [kv]" by (simp add: dict_set_fresh)
  moreover have "distinct (map fst ((acc @ [kv]) @ kvs))" using Cons.prems by simp
  ultimately show ?case using Cons.IH [of "acc @ [kv]"] by simp
qed

lemma delim_simps [simp]:
  "delim []" "delim (CHR '','' # t)" "delim (CHR '']'' # t)" "delim (CHR ''}'' # t)"
  by (simp_all add: delim_def)

lemma parse_atoms:
  "parse_value (Suc m) (json_dumps JNull @ rest) = Parsed (JNull, rest)"
  "parse_value (Suc m) (json_dumps (JBool b) @ rest) = Parsed (JBool b, rest)"
  "parse_value (Suc m) (json_dumps (JStr s) @ rest) = Parsed (JStr s, rest)"
  by (simp_all add: quote_def scan_quote)

lemma parse_int:
  assumes "delim rest"
  shows "parse_value (Suc m) (json_dumps (JInt i) @ rest) = Parsed (JInt i, rest)"
proof -
  obtain c cs where c: "int_str i = c # cs" "c = CHR ''-'' \<or> is_digit c"
    using int_str_hd by blast
  have "parse_value (Suc m) (c # cs @ rest) = parse_number (c # cs @ rest)"
    using c(2) num_start [OF c(2)] by simp
  then show ?thesis using parse_number_int [OF assms, of i] c(1) by simp
qed

lemma parse_list_open:
  assumes "xs \<noteq> []"
  shows "parse_value (Suc m) (CHR ''['' # dumps_items xs @ t) =
     (case parse_items m [] (dumps_items xs @ t) of
        Malformed \<Rightarrow> Malformed
      | Unmodelled \<Rightarrow> Unmodelled
      | Parsed (ys, rest') \<Rightarrow> Parsed (JList ys, rest'))"
proof -
  obtain c cs where "dumps_items xs = c # cs" "value_start c"
    using dumps_items_hd [OF assms] by blast
  then show ?thesis by (simp add: skip_ws_cons value_start_def)
qed

lemma parse_dict_open:
  assumes "kvs \<noteq> []"
  shows "parse_value (Suc m) (CHR ''{'' # dumps_pairs kvs @ t) =
     (case parse_pairs m [] (dumps_pairs kvs @ t) of
        Malformed \<Rightarrow> Malformed
      | Unmodelled \<Rightarrow> Unmodelled
      | Parsed (ys, rest') \<Rightarrow> Parsed (JDict ys, rest'))"
proof -
  obtain cs where "dumps_pairs kvs = CHR 0x22 # cs"
    using dumps_pairs_hd [OF assms] by blast
  then show ?thesis by (simp add: skip_ws_cons is_ws_def)
qed

lemma parse_items_last:
  assumes "parse_value m (json_dumps x @ CHR '']'' # rest) = Parsed (x, CHR '']'' # rest)"
  shows "parse_items (Suc m) acc (json_dumps x @ CHR '']'' # rest) = Parsed (acc @ [x], rest)"
  using assms by (simp add: skip_ws_cons is_ws_def)

lemma parse_items_more:
  assumes "parse_value m (json_dumps x @ CHR '','' # CHR '' '' # dumps_items (y # ys) @ t) =
      Parsed (x, CHR '','' # CHR '' '' # dumps_items (y # ys) @ t)"
  shows "parse_items (Suc m) acc (json_dumps x @ CHR '','' # CHR '' '' # dumps_items (y # ys) @ t) =
      parse_items m (acc @ [x]) (dumps_items (y # ys) @ t)"
proof -
  obtain c cs where "dumps_items (y # ys) = c # cs" "value_start c"
    using dumps_items_hd [of "y # ys"] by blast
  then show ?thesis using assms
    by (simp add: skip_ws_cons is_ws_def value_start_def)
qed

lemma parse_pairs_key:
  "parse_pairs (Suc m) acc (quote k @ CHR '':'' # CHR '' '' # json_dumps v @ t) =
     (case parse_value m (json_dumps v @ t) of
        Malformed \<Rightarrow> Malformed
      | Unmodelled \<Rightarrow> Unmodelled
      | Parsed (v', rest2) \<Rightarrow>
          (case skip_ws rest2 of
             [] \<Rightarrow> Malformed
           | d # rest3 \<Rightarrow>
               if d = CHR ''}'' then Parsed (dict_set acc k v', rest3)
               else if d = CHR '','' then parse_pairs m (dict_set acc k v') (skip_ws rest3)
               else Malformed))"
  by (simp add: quote_def scan_quote skip_ws_cons is_ws_def)

lemma roundtrip_aux:
  "wf_json v \<Longrightarrow> length (json_dumps v) < n \<Longrightarrow> delim rest \<Longrightarrow>
     parse_value n (json_dumps v @ rest) = Parsed (v, rest)"
  "wf_items xs \<Longrightarrow> xs \<noteq> [] \<Longrightarrow> length (dumps_items xs) + 1 < n' \<Longrightarrow>
     parse_items n' acc (dumps_items xs @ CHR '']'' # rest') = Parsed (acc @ xs, rest')"
  "wf_pairs kvs \<Longrightarrow> kvs \<noteq> [] \<Longrightarrow> length (dumps_pairs kvs) + 1 < n'' \<Longrightarrow>
     parse_pairs n'' dacc (dumps_pairs kvs @ CHR ''}'' # rest'') =
       Parsed (foldl (\<lambda>d kv. dict_set d (fst kv) (snd kv)) dacc kvs, rest'')"
proof (induction v and xs and kvs arbitrary: n rest and n' acc rest' and n'' dacc rest''
       rule: json_dumps_dumps_items_dumps_pairs.induct)
  case 1
  then obtain m where "n = Suc m" by (cases n) auto
  then show ?case using parse_atoms(1) by simp
next
  case (2 b)
  then obtain m where "n = Suc m" by (cases n) auto
  then show ?case using parse_atoms(2) by simp
next
  case (3 i)
  then obtain m where "n = Suc m" by (cases n) auto
  then show ?case using parse_int [OF 3(3)] by simp
next
  case (4 s)
  then obtain m where "n = Suc m" by (cases n) auto
  then show ?case using parse_atoms(3) by simp
next
  case (5 xs)
  then obtain m where m: "n = Suc m" by (cases n) auto
  show ?case
  proof (cases "xs = []")
    case True
    then show ?thesis using m by (simp add: skip_ws_cons is_ws_def)
  next
    case False
    have len: "length (dumps_items xs) + 1 < m" using 5(3) m by simp
    have "parse_items m [] (dumps_items xs @ CHR '']'' # rest) = Parsed ([] @ xs, rest)"
      using 5(1) [OF _ False len] 5(2) by simp
    then show ?thesis using m parse_list_open [OF False, of m "CHR '']'' # rest"] by simp
  qed
next
  case (6 kvs)
  then obtain m where m: "n = Suc m" by (cases n) auto
  show ?case
  proof (cases "kvs = []")
    case True
    then show ?thesis using m by (simp add: skip_ws_cons is_ws_def)
  next
    case False
    have len: "length (dumps_pairs kvs) + 1 < m" using 6(3) m by simp
    have "parse_pairs m [] (dumps_pairs kvs @ CHR ''}'' # rest) =
        Parsed (foldl (\<lambda>d kv. dict_set d (fst kv) (snd kv)) [] kvs, rest)"
      using 6(1) [OF _ False len] 6(2) by simp
    moreover have "foldl (\<lambda>d kv. dict_set d (fst kv) (snd kv)) [] kvs = kvs"
      using foldl_dict_set [of "[]" kvs] 6(2) by simp
    ultimately show ?thesis using m parse_dict_open [OF False, of m "CHR ''}'' # rest"] by simp
  qed
next
  case 7
  then show ?case by simp
next
  case (8 x)
  then obtain m where m: "n' = Suc m" by (cases n') auto
  have "parse_value m (json_dumps x @ CHR '']'' # rest') = Parsed (x, CHR '']'' # rest')"
    using 8(1) [of m "CHR '']'' # rest'"] 8(2,4) m by simp
  then show ?case using m parse_items_last by simp
next
  case (9 x y ys)
  then obtain m where m: "n' = Suc m" by (cases n') auto
  have lx: "length (json_dumps x) < m" and ly: "length (dumps_items (y # ys)) + 1 < m"
    using 9(5) m by simp_all
  have px: "parse_value m (json_dumps x @ CHR '','' # CHR '' '' # dumps_items (y # ys) @ CHR '']'' # rest') =
      Parsed (x, CHR '','' # CHR '' '' # dumps_items (y # ys) @ CHR '']'' # rest')"
    using 9(1) [OF _ lx] 9(3) by simp
  have "parse_items m (acc @ [x]) (dumps_items (y # ys) @ CHR '']'' # rest') =
      Parsed ((acc @ [x]) @ y # ys, rest')"
    using 9(2) [OF _ _ ly] 9(3) by simp
  then show ?case using m parse_items_more [OF px] by simp
next
  case 10
  then show ?case by simp
next
  case (11 k v)
  then obtain m where m: "n'' = Suc m" by (cases n'') auto
  have lv: "length (json_dumps v) < m" using 11(4) m by (simp add: quote_def)
  have "parse_value m (json_dumps v @ CHR ''}'' # rest'') = Parsed (v, CHR ''}'' # rest'')"
    using 11(1) [OF _ lv] 11(2) by simp
  then show ?case
    using m parse_pairs_key [of m dacc k v "CHR ''}'' # rest''"]
    by (simp add: skip_ws_cons is_ws_def)
next
  case (12 k v p ps)
  then obtain m where m: "n'' = Suc m" by (cases n'') auto
  have lv: "length (json_dumps v) < m" and lp: "length (dumps_pairs (p # ps)) + 1 < m"
    using 12(5) m by (simp_all add: quote_def)
  have pv: "parse_value m (json_dumps v @ CHR '','' # CHR '' '' # dumps_pairs (p # ps) @ CHR ''}'' # rest'') =
      Parsed (v, CHR '','' # CHR '' '' # dumps_pairs (p # ps) @ CHR ''}'' # rest'')"
    using 12(1) [OF _ lv] 12(3) by simp
  obtain cs where hd: "dumps_pairs (p # ps) = CHR 0x22 # cs"
    using dumps_pairs_hd [of "p # ps"] by blast
  have "parse_pairs m (dict_set dacc k v) (dumps_pairs (p # ps) @ CHR ''}'' # rest'') =
      Parsed (foldl (\<lambda>d kv. dict_set d (fst kv) (snd kv)) (dict_set dacc k v) (p # ps), rest'')"
    using 12(2) [OF _ _ lp] 12(3) by simp
  then show ?case
    using m pv hd
      parse_pairs_key [of m dacc k v "CHR '','' # CHR '' '' # dumps_pairs (p # ps) @ CHR ''}'' # rest''"]
    by (simp add: skip_ws_cons is_ws_def)
qed

lemma loads_dumps:
  assumes "wf_json v"
  shows "json_loads (json_dumps v) = Parsed v"
proof -
  have "parse_value (Suc (length (json_dumps v))) (json_dumps v @ []) = Parsed (v, [])"
    by (rule roundtrip_aux(1) [OF assms]) simp_all
  moreover have "skip_ws (json_dumps v) = json_dumps v"
    using skip_ws_dumps [of v "[]"] by simp
  ultimately show ?thesis by (simp add: json_loads_def)
qed



section \<open>The listen loop and undecodable texts\<close>

lemma listen_crash:
  "fst (listen loads reg rs w) = Crashed e \<Longrightarrow> e = CancelledError"
proof (induction rs arbitrary: w)
  case Nil
  then show ?case by (simp split: if_splits)
next
  case (Cons r rs)
  then show ?case
    by (auto split: if_splits prod.splits res.splits exn.splits)
qed

lemma listen_try_decode_error:
  assumes "ws_websocket w" and "ws_is_connected w" and "data \<noteq> []"
    and "loads data = Raise JSONDecodeError"
  shows "listen_try loads reg (RecvData data) w =
     (Ret (), if conn_debug w then emit (Print DEBUG_JSON_PARSE_FAILED [JStr data]) w else w)"
  using assms by (simp add: listen_try_def ws_receive_def listen_decode_def)

lemma listen_try_decode_other:
  assumes "ws_websocket w" and "ws_is_connected w" and "data \<noteq> []"
    and "loads data = Raise e" and "e \<noteq> JSONDecodeError"
  shows "listen_try loads reg (RecvData data) w = (Raise e, w)"
  using assms by (simp add: listen_try_def ws_receive_def listen_decode_def split: exn.splits)

lemma listen_try_dispatch:
  assumes "ws_websocket w" and "ws_is_connected w" and "data \<noteq> []"
    and "loads data = Ret message"
    and "fst (handle_message reg message
           (if conn_debug w then emit (Print DEBUG_RECEIVED [message]) w else w)) = Ret ()"
  shows "listen_try loads reg (RecvData data) w =
     (Ret (), snd (handle_message reg message
           (if conn_debug w then emit (Print DEBUG_RECEIVED [message]) w else w)))"
  using assms
  by (simp add: listen_try_def ws_receive_def listen_decode_def Let_def case_prod_beta)

lemma listen_try_dispatch_any:
  assumes "ws_websocket w" and "ws_is_connected w" and "data \<noteq> []"
    and "loads data = Ret message"
  shows "listen_try loads reg (RecvData data) w =
     (case handle_message reg message
             (if conn_debug w then emit (Print DEBUG_RECEIVED [message]) w else w) of
        (Raise JSONDecodeError, w2) \<Rightarrow>
          (Ret (), if conn_debug w2 then emit (Print DEBUG_JSON_PARSE_FAILED [JStr data]) w2 else w2)
      | (r, w2) \<Rightarrow> (r, w2))"
  using assms
  by (simp add: listen_try_def ws_receive_def listen_decode_def Let_def
      split: prod.splits res.splits exn.splits)

text \<open>
  C9. Decode resilience. Let the loop receive, on an open connection, a non-empty text
  \<open>data\<close> on which \<^verbatim>\<open>json.loads\<close> raises \<^verbatim>\<open>JSONDecodeError\<close>. Then the loop goes on with
  the rest of what the socket delivers, from the same state but for the line
  \<^verbatim>\<open>DEBUG_JSON_PARSE_FAILED\<close> printed in debug mode (\<open>logged\<close>), and the connection is
  still marked connected there. A well-formed text \<open>data'\<close> that comes next is decoded
  to \<open>message\<close>, printed in debug mode and dispatched by \<^verbatim>\<open>_handle_message\<close>: that turn
  of the loop is the call of \<^verbatim>\<open>_handle_message\<close>, where a \<^verbatim>\<open>JSONDecodeError\<close> raised by a
  handler is treated like one of the decoder. When the handlers return, the loop goes
  on from the state they leave. On no input does the loop end with an exception other
  than the cancellation of its task: a decoding error never leaves it.
\<close>

theorem decode_failure_skipped:
  fixes loads :: "string \<Rightarrow> json res" and reg :: registry and w :: world
    and data data' :: string and rs rs' rs0 :: "recv list" and w0 :: world
  assumes ws: "ws_websocket w" and conn: "ws_is_connected w" and ne: "data \<noteq> []"
    and bad: "loads data = Raise JSONDecodeError"
  defines "logged \<equiv> (if conn_debug w then emit (Print DEBUG_JSON_PARSE_FAILED [JStr data]) w else w)"
  defines "received \<equiv> (\<lambda>message.
      if conn_debug w then emit (Print DEBUG_RECEIVED [message]) logged else logged)"
  shows "listen loads reg (RecvData data # rs) w = listen loads reg rs logged
    \<and> is_connected logged
    \<and> (data' \<noteq> [] \<and> loads data' = Ret message \<longrightarrow>
          listen_try loads reg (RecvData data') logged =
            (case handle_message reg message (received message) of
               (Raise JSONDecodeError, w2) \<Rightarrow>
                 (Ret (), if conn_debug w2
                          then emit (Print DEBUG_JSON_PARSE_FAILED [JStr data']) w2 else w2)
             | (r, w2) \<Rightarrow> (r, w2)))
    \<and> (data' \<noteq> [] \<and> loads data' = Ret message
        \<and> fst (handle_message reg message (received message)) = Ret () \<longrightarrow>
          listen loads reg (RecvData data # RecvData data' # rs') w =
          listen loads reg rs' (snd (handle_message reg message (received message))))
    \<and> (fst (listen loads reg rs0 w0) = Crashed e \<longrightarrow> e = CancelledError)"
proof -
  have c: "is_connected w" using conn by (simp add: is_connected_def)
  have 1: "listen loads reg (RecvData data # rs) w = listen loads reg rs logged" for rs
    using c listen_try_decode_error [where loads = loads and data = data and reg = reg, OF ws conn ne bad]
    by (simp add: logged_def)
  have l: "ws_websocket logged" "ws_is_connected logged" "conn_debug logged = conn_debug w"
    using ws conn by (simp_all add: logged_def emit_def)
  have 2: "is_connected logged" using l by (simp add: is_connected_def)
  have 3: "listen loads reg (RecvData data # RecvData data' # rs') w =
          listen loads reg rs' (snd (handle_message reg message (received message)))"
    if "data' \<noteq> []" "loads data' = Ret message"
       "fst (handle_message reg message (received message)) = Ret ()"
  proof -
    have "listen_try loads reg (RecvData data') logged =
        (Ret (), snd (handle_message reg message (received message)))"
      using listen_try_dispatch [where loads = loads and data = data' and reg = reg
          and message = message, OF l(1,2) that(1,2)] that(3)
      by (simp add: received_def l(3))
    then have "listen loads reg (RecvData data' # rs') logged =
        listen loads reg rs' (snd (handle_message reg message (received message)))"
      using 2 by simp
    then show ?thesis using 1 by simp
  qed
  have 4: "listen_try loads reg (RecvData data') logged =
            (case handle_message reg message (received message) of
               (Raise JSONDecodeError, w2) \<Rightarrow>
                 (Ret (), if conn_debug w2
                          then emit (Print DEBUG_JSON_PARSE_FAILED [JStr data']) w2 else w2)
             | (r, w2) \<Rightarrow> (r, w2))"
    if "data' \<noteq> []" "loads data' = Ret message"
    using listen_try_dispatch_any [where loads = loads and data = data' and reg = reg
        and message = message, OF l(1,2) that]
    by (simp add: received_def l(3))
  show ?thesis using 1 2 3 4 listen_crash by blast
qed


lemma token_waiting_socket [simp]:
  "ws_websocket token_waiting" "ws_is_connected token_waiting" "\<not> conn_debug token_waiting"
proof -
  have "usable token_waiting" by simp
  then show "ws_websocket token_waiting" "ws_is_connected token_waiting"
    by (simp_all add: usable_def)
  show "\<not> conn_debug token_waiting"
    by (simp add: token_waiting_def authenticate_token_usable dict_get_def)
qed

lemma call_handlers_single: "call_handlers [h] p w = h p w"
  by (simp split: prod.splits res.splits)

lemma auth_success_dispatch:
  "handle_message (setup_handlers code t1 t2 Map.empty)
     (frame v 1 s 19 (JDict [(''token'', JStr ''U'')])) token_waiting =
   finished (on_auth_success (JDict [(''token'', JStr ''U'')]) token_waiting)"
  by (simp add: handle_message_def frame_def dict_get_def Let_def event_name_of_def eq_int_def
      setup_handlers_def register_event_handler_def call_handlers_single del: call_handlers.simps)

lemma on_auth_success_token_waiting:
  "on_auth_success (JDict [(''token'', JStr ''U'')]) token_waiting =
     (Returned, future_set_result 0 (JDict [(''token'', JStr ''U'')])
        (session_save (session_set ''token'' (JStr ''U'') token_waiting)))"
  by (simp add: on_auth_success_def py_get_def dict_get_def)

lemma auth_success_on_token_waiting:
  "fst (finished (on_auth_success (JDict [(''token'', JStr ''U'')]) token_waiting)) = Ret ()"
  "futures (snd (finished (on_auth_success (JDict [(''token'', JStr ''U'')]) token_waiting))) =
     [Resolved (JDict [(''token'', JStr ''U'')])]"
  "is_connected (snd (finished (on_auth_success (JDict [(''token'', JStr ''U'')]) token_waiting)))"
proof -
  show "fst (finished (on_auth_success (JDict [(''token'', JStr ''U'')]) token_waiting)) = Ret ()"
    and "futures (snd (finished (on_auth_success (JDict [(''token'', JStr ''U'')]) token_waiting))) =
     [Resolved (JDict [(''token'', JStr ''U'')])]"
    by (simp_all add: on_auth_success_token_waiting finished_def)
  have "ws_is_connected (future_set_result 0 (JDict [(''token'', JStr ''U'')])
        (session_save (session_set ''token'' (JStr ''U'') token_waiting)))"
    by (simp add: future_set_result_def session_save_def session_set_def emit_def)
  then show "is_connected (snd (finished (on_auth_success (JDict [(''token'', JStr ''U'')]) token_waiting)))"
    by (simp add: on_auth_success_token_waiting finished_def is_connected_def)
qed

text \<open>
  An instance: a client waiting for the answer to its token login receives the text
  \<^verbatim>\<open>{\<close>, then a frame \<open>auth_success\<close>. The frame is dispatched, the pending handle is
  resolved, and the loop is receiving. The decoder is the model of \<^verbatim>\<open>json.loads\<close>; both
  texts lie within it, the first malformed, the second the encoding of the frame.
\<close>

theorem decode_failure_skipped_witness:
  "json_loads ''{'' = Malformed
   \<and> json_loads (json_dumps (frame (JInt 11) 1 1 19 (JDict [(''token'', JStr ''U'')]))) =
       Parsed (frame (JInt 11) 1 1 19 (JDict [(''token'', JStr ''U'')]))
   \<and> listen (\<lambda>s. case json_loads s of Parsed v \<Rightarrow> Ret v | Malformed \<Rightarrow> Raise JSONDecodeError
                                     | Unmodelled \<Rightarrow> Raise JSONDecodeError)
     (setup_handlers JNull 0 0 Map.empty)
     [RecvData ''{'',
      RecvData (json_dumps (frame (JInt 11) 1 1 19 (JDict [(''token'', JStr ''U'')])))]
     token_waiting =
   (Receiving, snd (finished (on_auth_success (JDict [(''token'', JStr ''U'')]) token_waiting)))
   \<and> futures (snd (finished (on_auth_success (JDict [(''token'', JStr ''U'')]) token_waiting))) =
     [Resolved (JDict [(''token'', JStr ''U'')])]"
proof -
  let ?loads = "\<lambda>s. case json_loads s of Parsed v \<Rightarrow> Ret v | Malformed \<Rightarrow> Raise JSONDecodeError
                                     | Unmodelled \<Rightarrow> Raise JSONDecodeError"
  let ?m = "frame (JInt 11) 1 1 19 (JDict [(''token'', JStr ''U'')])"
  have malformed: "json_loads ''{'' = Malformed"
    by (simp add: json_loads_def skip_ws_def is_ws_def)
  then have bad: "?loads ''{'' = Raise JSONDecodeError"
    by simp
  have "wf_json ?m" by (simp add: frame_def)
  then have parsed: "json_loads (json_dumps ?m) = Parsed ?m"
    by (simp add: loads_dumps)
  then have good: "?loads (json_dumps ?m) = Ret ?m"
    by simp
  have ne: "json_dumps ?m \<noteq> []" by (simp add: frame_def)
  have d0: "''{'' \<noteq> []" by simp
  note t = decode_failure_skipped [where loads = ?loads and data = "''{''"
      and w = token_waiting and reg = "setup_handlers JNull 0 0 Map.empty"
      and data' = "json_dumps ?m" and message = ?m and rs' = "[]" and rs = "[]"
      and ?rs0.0 = "[]" and ?w0.0 = token_waiting and e = CancelledError,
      OF token_waiting_socket(1,2) d0 bad, simplified token_waiting_socket(3) if_False]
  have hm: "fst (handle_message (setup_handlers JNull 0 0 Map.empty) ?m token_waiting) = Ret ()"
    by (simp add: auth_success_dispatch auth_success_on_token_waiting)
  have "listen ?loads (setup_handlers JNull 0 0 Map.empty)
     [RecvData ''{'', RecvData (json_dumps ?m)] token_waiting =
     listen ?loads (setup_handlers JNull 0 0 Map.empty) []
       (snd (handle_message (setup_handlers JNull 0 0 Map.empty) ?m token_waiting))"
    using t ne good hm by blast
  then show ?thesis
    using malformed parsed
    by (simp add: auth_success_dispatch auth_success_on_token_waiting)
qed

end
